theory Spec2Isabelle
  imports Main
begin

section \<open>Data model\<close>

text \<open>
  The document store is modelled as one record of collections, each collection a list of
  documents in insertion order. ObjectIds are the hexadecimal strings the handlers compare
  (\<^verbatim>\<open>x.toString() === userId\<close>); dates are milliseconds as integers. Values that the
  handlers take from their environment (the clock, a generated \<^verbatim>\<open>_id\<close>, random token bytes,
  the answer of the image host) are parameters of the handler. Only requests whose ids the
  driver can cast are modelled; a malformed id makes the driver throw, which every handler
  turns into an error response without a write. Reads and writes of the store are taken to
  succeed, except where a handler's own data fails the schema on save; a store that is down
  throws into the handler's \<^verbatim>\<open>catch\<close>, which answers 500.
\<close>

type_synonym oid = string
type_synonym date = int

text \<open>Text that a handler trims or measures is a JavaScript string: a list of UTF-16 code
  units.\<close>

type_synonym js_string = "nat list"

record photo =
  p_url :: string
  p_publicId :: string
  p_isMain :: bool
  p_likes :: "oid option list option"
  p_likeCount :: "int option"

record user =
  u_id :: oid
  u_name :: string
  u_email :: string
  u_password :: string
  u_college :: string
  u_isVerified :: bool
  u_verificationToken :: "string option"
  u_verificationTokenExpires :: "date option"
  u_resetPasswordToken :: "string option"
  u_resetPasswordExpires :: "date option"
  u_photos :: "photo list"

record swipe =
  s_swiper :: oid
  s_swiped :: oid
  s_action :: string
  s_swipedAt :: date
  s_createdAt :: date

record last_message =
  lm_content :: "js_string option"
  lm_sender :: "oid option"
  lm_timestamp :: date

record match =
  m_id :: oid
  m_user1 :: oid
  m_user2 :: oid
  m_status :: string
  m_matchedAt :: date
  m_lastActivity :: date
  m_lastMessage :: last_message

record msg =
  g_id :: oid
  g_match :: oid
  g_sender :: oid
  g_content :: js_string
  g_type :: string
  g_replyTo :: "oid option"
  g_readBy :: "oid list"
  g_createdAt :: date

datatype notif_data = MatchRef oid oid | UserRef oid

record notification =
  n_recipient :: oid
  n_sender :: "oid option"
  n_type :: string
  n_title :: string
  n_message :: string
  n_data :: notif_data
  n_isRead :: bool

record reaction =
  r_userId :: oid
  r_type :: string

record comment =
  k_id :: oid
  k_userId :: oid
  k_content :: string

record confession =
  c_id :: oid
  c_userId :: oid
  c_content :: string
  c_category :: string
  c_college :: string
  c_isAnonymous :: bool
  c_isReported :: bool
  c_reactions :: "reaction list"
  c_comments :: "comment list"
  c_createdAt :: date

record db =
  users :: "user list"
  swipes :: "swipe list"
  matches :: "match list"
  messages :: "msg list"
  notifications :: "notification list"
  confessions :: "confession list"

subsection \<open>Responses\<close>

record reaction_counts =
  heart :: nat
  laugh :: nat
  fire :: nat
  sad :: nat

record user_reactions =
  ur_heart :: bool
  ur_laugh :: bool
  ur_fire :: bool
  ur_sad :: bool

record fmt_confession =
  fc_id :: oid
  fc_content :: string
  fc_category :: string
  fc_reactions :: reaction_counts
  fc_commentCount :: nat
  fc_isAnonymous :: bool
  fc_userReactions :: user_reactions

datatype resp_data =
    NoData
  | PhotoData string string bool
  | SwipeData bool "oid option" string
  | LikeData int bool
  | ReactData reaction_counts bool
  | MessageData oid js_string string
  | ConfessionsData "fmt_confession list" bool
  | ConfessionData fmt_confession "(oid \<times> string) list"

datatype response =
    Json (status: nat) (success: bool) (message: "string option") (data: resp_data)
  | Html (status: nat) (html: string)

subsection \<open>Array helpers of the runtime\<close>

text \<open>\<^verbatim>\<open>Array.prototype.findIndex\<close>: the first index whose element satisfies the predicate;
  \<open>None\<close> stands for \<^verbatim>\<open>-1\<close>.\<close>

fun findIndex :: "('a \<Rightarrow> bool) \<Rightarrow> 'a list \<Rightarrow> nat option" where
  "findIndex P [] = None"
| "findIndex P (x # xs) =
     (if P x then Some 0 else map_option Suc (findIndex P xs))"

text \<open>\<^verbatim>\<open>xs.splice(i, 1)\<close> for an index inside the array.\<close>

definition splice1 :: "nat \<Rightarrow> 'a list \<Rightarrow> 'a list" where
  "splice1 i xs = take i xs @ drop (Suc i) xs"

text \<open>A document found by a query and saved again after an in-place change: the first
  document the query matches is replaced.\<close>

fun update_first :: "('a \<Rightarrow> bool) \<Rightarrow> ('a \<Rightarrow> 'a) \<Rightarrow> 'a list \<Rightarrow> 'a list" where
  "update_first P f [] = []"
| "update_first P f (x # xs) = (if P x then f x # xs else x # update_first P f xs)"

subsection \<open>Tokens and the auth middleware\<close>

text \<open>The decoded token is the object that was signed, a list of named fields.
  \<^verbatim>\<open>generateToken\<close> signs \<^verbatim>\<open>{ userId }\<close>.\<close>

type_synonym jwt_payload = "(string \<times> string) list"

definition generateToken :: "oid \<Rightarrow> jwt_payload" where
  "generateToken userId = [(''userId'', userId)]"

datatype authz = NoToken | InvalidToken | Decoded jwt_payload

definition findById_user :: "db \<Rightarrow> oid \<Rightarrow> user option" where
  "findById_user s i = find (\<lambda>u. u_id u = i) (users s)"

text \<open>The middleware of the users, matches, chat and notifications routers: it decodes the
  token and loads the user.\<close>

definition auth :: "db \<Rightarrow> authz \<Rightarrow> response + oid" where
  "auth s a =
     (case a of
        NoToken \<Rightarrow> Inl (Json 401 False (Some ''No token provided'') NoData)
      | InvalidToken \<Rightarrow> Inl (Json 401 False (Some ''Invalid token'') NoData)
      | Decoded p \<Rightarrow>
          (case map_of p ''userId'' of
             None \<Rightarrow> Inl (Json 401 False (Some ''User not found'') NoData)
           | Some uid \<Rightarrow>
               (case findById_user s uid of
                  None \<Rightarrow> Inl (Json 401 False (Some ''User not found'') NoData)
                | Some u \<Rightarrow> Inr uid)))"

text \<open>The middleware of the photos and confessions routers: it only decodes the token and
  stores the decoded object as \<^verbatim>\<open>req.user\<close>.\<close>

definition auth_decode :: "authz \<Rightarrow> response + jwt_payload" where
  "auth_decode a =
     (case a of
        NoToken \<Rightarrow> Inl (Json 401 False (Some ''No token provided'') NoData)
      | InvalidToken \<Rightarrow> Inl (Json 401 False (Some ''Invalid token'') NoData)
      | Decoded p \<Rightarrow> Inr p)"

text \<open>\<^verbatim>\<open>user.save()\<close>: the stored document with the same \<^verbatim>\<open>_id\<close> is replaced.\<close>

definition save_user :: "db \<Rightarrow> user \<Rightarrow> db" where
  "save_user s u = s\<lparr>users := map (\<lambda>v. if u_id v = u_id u then u else v) (users s)\<rparr>"

section \<open>Users router: profile photos\<close>

text \<open>A photo sub-document as the schema completes it: empty liker list, counter 0.\<close>

definition new_photo :: "string \<Rightarrow> string \<Rightarrow> bool \<Rightarrow> photo" where
  "new_photo url pid main =
     \<lparr>p_url = url, p_publicId = pid, p_isMain = main, p_likes = Some [], p_likeCount = Some 0\<rparr>"

text \<open>\<^verbatim>\<open>POST /upload-photo\<close>, for a request that the upload middleware has passed on:
  \<open>has_file\<close> says whether \<^verbatim>\<open>req.file\<close> is set. \<open>cloud\<close> is the answer of the image host: an
  error message, or the \<^verbatim>\<open>secure_url\<close> and \<^verbatim>\<open>public_id\<close>.\<close>

definition upload_photo ::
  "db \<Rightarrow> authz \<Rightarrow> bool \<Rightarrow> (string + string \<times> string) \<Rightarrow> response \<times> db" where
  "upload_photo s a has_file cloud =
     (case auth s a of
        Inl r \<Rightarrow> (r, s)
      | Inr uid \<Rightarrow>
          if \<not> has_file then (Json 400 False (Some ''No image file provided'') NoData, s)
          else
            (case findById_user s uid of
               None \<Rightarrow> (Json 500 False (Some ''Photo upload failed: '') NoData, s)
             | Some user \<Rightarrow>
                 if length (u_photos user) \<ge> 6
                 then (Json 400 False (Some ''Maximum 6 photos allowed'') NoData, s)
                 else
                   (case cloud of
                      Inl err \<Rightarrow> (Json 500 False (Some (''Photo upload failed: '' @ err)) NoData, s)
                    | Inr (secure_url, public_id) \<Rightarrow>
                        let isFirstPhoto = (length (u_photos user) = 0);
                            user' = user\<lparr>u_photos :=
                                      u_photos user @ [new_photo secure_url public_id isFirstPhoto]\<rparr>
                        in (Json 200 True (Some ''Photo uploaded successfully'')
                              (PhotoData secure_url public_id isFirstPhoto),
                            save_user s user'))))"

text \<open>The main-photo repair after a deletion.\<close>

definition ensure_main :: "photo list \<Rightarrow> photo list" where
  "ensure_main ps =
     (case ps of
        [] \<Rightarrow> []
      | q # qs \<Rightarrow> if \<not> list_ex p_isMain ps then q\<lparr>p_isMain := True\<rparr> # qs else ps)"

text \<open>\<^verbatim>\<open>DELETE /photo/:publicId\<close>. A failure of the image host is logged and ignored.\<close>

definition delete_photo :: "db \<Rightarrow> authz \<Rightarrow> string \<Rightarrow> response \<times> db" where
  "delete_photo s a publicId =
     (case auth s a of
        Inl r \<Rightarrow> (r, s)
      | Inr uid \<Rightarrow>
          (case findById_user s uid of
             None \<Rightarrow> (Json 500 False (Some ''Server error: '') NoData, s)
           | Some user \<Rightarrow>
               (case findIndex (\<lambda>p. p_publicId p = publicId) (u_photos user) of
                  None \<Rightarrow> (Json 404 False (Some ''Photo not found'') NoData, s)
                | Some photoIndex \<Rightarrow>
                    let user' = user\<lparr>u_photos := ensure_main (splice1 photoIndex (u_photos user))\<rparr>
                    in (Json 200 True (Some ''Photo deleted successfully'') NoData,
                        save_user s user'))))"

text \<open>\<^verbatim>\<open>PUT /photo/:publicId/main\<close>.\<close>

definition set_main_photo :: "db \<Rightarrow> authz \<Rightarrow> string \<Rightarrow> response \<times> db" where
  "set_main_photo s a publicId =
     (case auth s a of
        Inl r \<Rightarrow> (r, s)
      | Inr uid \<Rightarrow>
          (case findById_user s uid of
             None \<Rightarrow> (Json 500 False (Some ''Server error: '') NoData, s)
           | Some user \<Rightarrow>
               (case findIndex (\<lambda>p. p_publicId p = publicId) (u_photos user) of
                  None \<Rightarrow> (Json 404 False (Some ''Photo not found'') NoData, s)
                | Some photoIndex \<Rightarrow>
                    let cleared = map (\<lambda>p. p\<lparr>p_isMain := False\<rparr>) (u_photos user);
                        user' = user\<lparr>u_photos :=
                                  cleared[photoIndex := (cleared ! photoIndex)\<lparr>p_isMain := True\<rparr>]\<rparr>
                    in (Json 200 True (Some ''Main photo updated successfully'') NoData,
                        save_user s user'))))"

text \<open>The invariant of the data model: a non-empty photo list has exactly one main photo.\<close>

definition main_inv :: "photo list \<Rightarrow> bool" where
  "main_inv ps = (ps = [] \<or> length (filter p_isMain ps) = 1)"

definition photos_ok :: "db \<Rightarrow> bool" where
  "photos_ok s = (\<forall>u \<in> set (users s). main_inv (u_photos u))"

definition photos_of :: "db \<Rightarrow> oid \<Rightarrow> photo list" where
  "photos_of s uid = (case findById_user s uid of None \<Rightarrow> [] | Some u \<Rightarrow> u_photos u)"

section \<open>Matches router: swipes\<close>

definition emoji_two_hearts :: string where
  "emoji_two_hearts = [CHR 0xF0, CHR 0x9F, CHR 0x92, CHR 0x95]"

definition emoji_heart :: string where
  "emoji_heart = [CHR 0xE2, CHR 0x9D, CHR 0xA4, CHR 0xEF, CHR 0xB8, CHR 0x8F]"

definition is_like :: "string \<Rightarrow> bool" where
  "is_like act = (act = ''like'' \<or> act = ''superlike'')"

text \<open>The query \<^verbatim>\<open>{ $or: [{user1: a, user2: b}, {user1: b, user2: a}], status: 'active' }\<close>.\<close>

definition active_between :: "oid \<Rightarrow> oid \<Rightarrow> match \<Rightarrow> bool" where
  "active_between a b m =
     (((m_user1 m = a \<and> m_user2 m = b) \<or> (m_user1 m = b \<and> m_user2 m = a))
      \<and> m_status m = ''active'')"

definition new_match :: "oid \<Rightarrow> oid \<Rightarrow> oid \<Rightarrow> date \<Rightarrow> match" where
  "new_match fresh a b now =
     \<lparr>m_id = fresh, m_user1 = a, m_user2 = b, m_status = ''active'', m_matchedAt = now,
      m_lastActivity = now,
      m_lastMessage = \<lparr>lm_content = None, lm_sender = None, lm_timestamp = now\<rparr>\<rparr>"

definition match_notification :: "oid \<Rightarrow> oid \<Rightarrow> string \<Rightarrow> oid \<Rightarrow> notification" where
  "match_notification recipient sender sender_name matchId =
     \<lparr>n_recipient = recipient, n_sender = Some sender, n_type = ''match'',
      n_title = ''New Match! '' @ emoji_two_hearts,
      n_message = ''You and '' @ sender_name @ '' liked each other!'',
      n_data = MatchRef matchId sender, n_isRead = False\<rparr>"

definition like_notification :: "oid \<Rightarrow> oid \<Rightarrow> notification" where
  "like_notification recipient sender =
     \<lparr>n_recipient = recipient, n_sender = Some sender, n_type = ''like'',
      n_title = ''Someone likes you! '' @ emoji_heart,
      n_message = ''You have a new admirer'',
      n_data = UserRef sender, n_isRead = False\<rparr>"

text \<open>The first half of \<^verbatim>\<open>POST /swipe\<close>: the swipe of the pair is overwritten if there is
  one, and created otherwise.\<close>

definition record_swipe :: "oid \<Rightarrow> oid \<Rightarrow> string \<Rightarrow> date \<Rightarrow> swipe list \<Rightarrow> swipe list" where
  "record_swipe swiperId targetUserId act now ws =
     (case find (\<lambda>w. s_swiper w = swiperId \<and> s_swiped w = targetUserId) ws of
        Some existingSwipe \<Rightarrow>
          update_first (\<lambda>w. s_swiper w = swiperId \<and> s_swiped w = targetUserId)
            (\<lambda>w. w\<lparr>s_action := act, s_createdAt := now\<rparr>) ws
      | None \<Rightarrow>
          ws @ [\<lparr>s_swiper = swiperId, s_swiped = targetUserId, s_action = act,
                 s_swipedAt = now, s_createdAt = now\<rparr>])"

definition swipe_response :: "bool \<Rightarrow> oid option \<Rightarrow> response" where
  "swipe_response isMatch matchId =
     Json 200 True None
       (SwipeData isMatch matchId
          (if isMatch then ''It's a match! '' @ emoji_two_hearts else ''Swipe recorded''))"

text \<open>\<^verbatim>\<open>POST /swipe\<close>, in three parts that follow the handler top to bottom: the checks of
  the request, the write of the swipe, and the reciprocal check with the creation of the
  match. \<open>now\<close> is the clock and \<open>fresh\<close> the \<^verbatim>\<open>_id\<close> generated for a new match.\<close>

text \<open>The branch for a like or superlike, run on the store that already holds the swipe.\<close>

definition match_check :: "db \<Rightarrow> oid \<Rightarrow> user \<Rightarrow> date \<Rightarrow> oid \<Rightarrow> response \<times> db" where
  "match_check s1 swiperId targetUser now fresh =
     (let t = u_id targetUser in
      case find (\<lambda>w. s_swiper w = t \<and> s_swiped w = swiperId \<and> is_like (s_action w))
             (swipes s1) of
        None \<Rightarrow> (swipe_response False None, s1)
      | Some reciprocalSwipe \<Rightarrow>
          (case find (active_between swiperId t) (matches s1) of
             Some existingMatch \<Rightarrow> (swipe_response True (Some (m_id existingMatch)), s1)
           | None \<Rightarrow>
               let s2 = s1\<lparr>matches := matches s1 @ [new_match fresh swiperId t now]\<rparr> in
               (case findById_user s2 swiperId of
                  None \<Rightarrow> (Json 500 False (Some ''Server error'') NoData, s2)
                | Some swiperUser \<Rightarrow>
                    (swipe_response True (Some fresh),
                     s2\<lparr>notifications := notifications s2 @
                        [match_notification swiperId t (u_name targetUser) fresh,
                         match_notification t swiperId (u_name swiperUser) fresh]\<rparr>))))"

text \<open>The handler after its checks. The \<^verbatim>\<open>else\<close> that creates the like notification belongs
  to the test of the action, so it runs for a pass.\<close>

definition swipe_effect ::
  "db \<Rightarrow> oid \<Rightarrow> user \<Rightarrow> string \<Rightarrow> date \<Rightarrow> oid \<Rightarrow> response \<times> db" where
  "swipe_effect s swiperId targetUser act now fresh =
     (let t = u_id targetUser;
          s1 = s\<lparr>swipes := record_swipe swiperId t act now (swipes s)\<rparr>
      in if is_like act then match_check s1 swiperId targetUser now fresh
         else (swipe_response False None,
               s1\<lparr>notifications := notifications s1 @ [like_notification t swiperId]\<rparr>))"

definition swipe_handler ::
  "db \<Rightarrow> authz \<Rightarrow> oid option \<Rightarrow> string option \<Rightarrow> date \<Rightarrow> oid \<Rightarrow> response \<times> db" where
  "swipe_handler s a targetUserId action now fresh =
     (case auth s a of
        Inl r \<Rightarrow> (r, s)
      | Inr swiperId \<Rightarrow>
          (case (targetUserId, action) of
             (Some t, Some act) \<Rightarrow>
               if t = [] \<or> act = []
               then (Json 400 False (Some ''Target user ID and action are required'') NoData, s)
               else if act \<notin> set [''like'', ''pass'', ''superlike'']
               then (Json 400 False (Some ''Invalid action. Must be like, pass, or superlike'')
                       NoData, s)
               else if swiperId = t
               then (Json 400 False (Some ''Cannot swipe on yourself'') NoData, s)
               else
                 (case findById_user s t of
                    None \<Rightarrow> (Json 404 False (Some ''Target user not found'') NoData, s)
                  | Some targetUser \<Rightarrow> swipe_effect s swiperId targetUser act now fresh)
           | _ \<Rightarrow> (Json 400 False (Some ''Target user ID and action are required'') NoData, s)))"

text \<open>The records of the ordered pair, and the active matches of the unordered pair.\<close>

definition swipes_of :: "db \<Rightarrow> oid \<Rightarrow> oid \<Rightarrow> swipe list" where
  "swipes_of s a b = filter (\<lambda>w. s_swiper w = a \<and> s_swiped w = b) (swipes s)"

definition active_matches :: "db \<Rightarrow> oid \<Rightarrow> oid \<Rightarrow> match list" where
  "active_matches s a b = filter (active_between a b) (matches s)"

definition already_liked :: "db \<Rightarrow> oid \<Rightarrow> oid \<Rightarrow> bool" where
  "already_liked s b a =
     list_ex (\<lambda>w. s_swiper w = b \<and> s_swiped w = a \<and> is_like (s_action w)) (swipes s)"


text \<open>The unique index on \<^verbatim>\<open>(swiper, swiped)\<close>.\<close>

definition swipes_unique :: "db \<Rightarrow> bool" where
  "swipes_unique s = distinct (map (\<lambda>w. (s_swiper w, s_swiped w)) (swipes s))"

section \<open>Chat router: sending a message\<close>

text \<open>\<^verbatim>\<open>String.prototype.trim\<close> strips the white space and line terminators of the
  language from both ends. As code units: tab, line feed, vertical tab, form feed, carriage
  return, space, U+00A0, U+1680, U+2000 to U+200A, U+2028, U+2029, U+202F, U+205F, U+3000
  and U+FEFF.\<close>

definition js_space :: "nat \<Rightarrow> bool" where
  "js_space c =
     (c \<in> {0x9, 0xA, 0xB, 0xC, 0xD, 0x20, 0xA0, 0x1680, 0x2028, 0x2029, 0x202F, 0x205F,
            0x3000, 0xFEFF}
      \<or> (0x2000 \<le> c \<and> c \<le> 0x200A))"

definition trim :: "js_string \<Rightarrow> js_string" where
  "trim cs = rev (dropWhile js_space (rev (dropWhile js_space cs)))"

text \<open>The \<^verbatim>\<open>content\<close> field of a request body: absent, a string, or another JSON value.
  Of a value that is not a string the handler only sees whether it is falsy (\<^verbatim>\<open>null\<close>,
  \<^verbatim>\<open>false\<close>, \<^verbatim>\<open>0\<close>) or truthy (another number, \<^verbatim>\<open>true\<close>, an array, an object).\<close>

datatype body_text = Absent | Falsy | Truthy | Str js_string

definition message_types :: "string list" where
  "message_types = [''text'', ''image'', ''video'', ''audio'', ''file'']"

text \<open>The membership query \<^verbatim>\<open>{ _id: matchId, $or: [{user1: userId}, {user2: userId}] }\<close>.\<close>

definition participant_match :: "oid \<Rightarrow> oid \<Rightarrow> match \<Rightarrow> bool" where
  "participant_match matchId userId m =
     (m_id m = matchId \<and> (m_user1 m = userId \<or> m_user2 m = userId))"

text \<open>\<^verbatim>\<open>POST /matches/:matchId/messages\<close>. The body's \<^verbatim>\<open>type\<close> defaults to \<^verbatim>\<open>'text'\<close>. A
  truthy content that is not a string has no \<^verbatim>\<open>trim\<close>, so the first test throws into the
  handler's \<^verbatim>\<open>catch\<close>. Saving the message validates it against the schema (content of at
  most 1000 code units, type in the enumeration); a validation error is caught and answered
  with status 500 as well.\<close>

definition send_message ::
  "db \<Rightarrow> authz \<Rightarrow> oid \<Rightarrow> body_text \<Rightarrow> string option \<Rightarrow> oid option \<Rightarrow> date \<Rightarrow> oid
     \<Rightarrow> response \<times> db" where
  "send_message s a matchId content type replyTo now fresh =
     (case auth s a of
        Inl r \<Rightarrow> (r, s)
      | Inr userId \<Rightarrow>
          (case content of
             Absent \<Rightarrow> (Json 400 False (Some ''Message content is required'') NoData, s)
           | Falsy \<Rightarrow> (Json 400 False (Some ''Message content is required'') NoData, s)
           | Truthy \<Rightarrow> (Json 500 False (Some ''Server error'') NoData, s)
           | Str c \<Rightarrow>
               if c = [] \<or> trim c = []
               then (Json 400 False (Some ''Message content is required'') NoData, s)
               else
                 (case find (participant_match matchId userId) (matches s) of
                    None \<Rightarrow> (Json 404 False (Some ''Match not found'') NoData, s)
                  | Some match \<Rightarrow>
                      let ty = (case type of None \<Rightarrow> ''text'' | Some t \<Rightarrow> t) in
                      if length (trim c) > 1000 \<or> ty \<notin> set message_types
                      then (Json 500 False (Some ''Server error'') NoData, s)
                      else
                        let message = \<lparr>g_id = fresh, g_match = matchId, g_sender = userId,
                                       g_content = trim c, g_type = ty, g_replyTo = replyTo,
                                       g_readBy = [userId], g_createdAt = now\<rparr>;
                            s1 = s\<lparr>messages := messages s @ [message]\<rparr>;
                            s2 = s1\<lparr>matches :=
                                   update_first (\<lambda>m. m_id m = matchId)
                                     (\<lambda>m. m\<lparr>m_lastMessage :=
                                              \<lparr>lm_content = Some (trim c), lm_sender = Some userId,
                                               lm_timestamp = g_createdAt message\<rparr>,
                                            m_lastActivity := now\<rparr>)
                                     (matches s1)\<rparr>
                        in (Json 200 True None
                              (MessageData (g_id message) (g_content message) (g_type message)),
                            s2))))"

section \<open>Confessions router\<close>

definition reaction_types :: "string list" where
  "reaction_types = [''heart'', ''laugh'', ''fire'', ''sad'']"

text \<open>The counting loop \<^verbatim>\<open>reactions.forEach(r => { if (r.type && counts.hasOwnProperty(r.type))
  counts[r.type]++ })\<close>.\<close>

definition bump :: "reaction \<Rightarrow> reaction_counts \<Rightarrow> reaction_counts" where
  "bump r c =
     (if r_type r = ''heart'' then c\<lparr>heart := heart c + 1\<rparr>
      else if r_type r = ''laugh'' then c\<lparr>laugh := laugh c + 1\<rparr>
      else if r_type r = ''fire'' then c\<lparr>fire := fire c + 1\<rparr>
      else if r_type r = ''sad'' then c\<lparr>sad := sad c + 1\<rparr>
      else c)"

definition reactionCounts :: "reaction list \<Rightarrow> reaction_counts" where
  "reactionCounts rs = fold bump rs \<lparr>heart = 0, laugh = 0, fire = 0, sad = 0\<rparr>"

definition count_of :: "string \<Rightarrow> reaction_counts \<Rightarrow> nat" where
  "count_of t c =
     (if t = ''heart'' then heart c else if t = ''laugh'' then laugh c
      else if t = ''fire'' then fire c else if t = ''sad'' then sad c else 0)"

definition userReactions :: "oid option \<Rightarrow> reaction list \<Rightarrow> user_reactions" where
  "userReactions uid rs =
     \<lparr>ur_heart = list_ex (\<lambda>r. Some (r_userId r) = uid \<and> r_type r = ''heart'') rs,
      ur_laugh = list_ex (\<lambda>r. Some (r_userId r) = uid \<and> r_type r = ''laugh'') rs,
      ur_fire = list_ex (\<lambda>r. Some (r_userId r) = uid \<and> r_type r = ''fire'') rs,
      ur_sad = list_ex (\<lambda>r. Some (r_userId r) = uid \<and> r_type r = ''sad'') rs\<rparr>"

definition format_confession :: "oid option \<Rightarrow> confession \<Rightarrow> fmt_confession" where
  "format_confession uid c =
     \<lparr>fc_id = c_id c, fc_content = c_content c, fc_category = c_category c,
      fc_reactions = reactionCounts (c_reactions c),
      fc_commentCount = length (c_comments c),
      fc_isAnonymous = c_isAnonymous c,
      fc_userReactions = userReactions uid (c_reactions c)\<rparr>"

definition findById_confession :: "db \<Rightarrow> oid \<Rightarrow> confession option" where
  "findById_confession s i = find (\<lambda>c. c_id c = i) (confessions s)"

text \<open>The list query: the caller's college, not reported, the category unless it is
  \<^verbatim>\<open>'all'\<close>; newest first; \<^verbatim>\<open>skip\<close> and \<^verbatim>\<open>limit\<close> applied (a limit of 0 is no limit).\<close>

definition list_query :: "db \<Rightarrow> string \<Rightarrow> string \<Rightarrow> nat \<Rightarrow> nat \<Rightarrow> confession list" where
  "list_query s college category skip limit =
     (let hits = filter (\<lambda>c. c_college c = college \<and> \<not> c_isReported c
                              \<and> (category = ''all'' \<or> c_category c = category))
                   (confessions s);
          sorted_hits = rev (sort_key c_createdAt hits);
          skipped = drop skip sorted_hits
      in if limit = 0 then skipped else take limit skipped)"

text \<open>\<^verbatim>\<open>GET /\<close> of the confessions router. \<open>page\<close> and \<open>limit\<close> are the parsed query
  parameters; page 0 with a positive limit asks for a negative skip, which the store
  refuses.\<close>

definition get_confessions ::
  "db \<Rightarrow> authz \<Rightarrow> string option \<Rightarrow> nat \<Rightarrow> nat \<Rightarrow> response \<times> db" where
  "get_confessions s a category page limit =
     (case auth_decode a of
        Inl r \<Rightarrow> (r, s)
      | Inr p \<Rightarrow>
          (case Option.bind (map_of p ''userId'') (findById_user s) of
             None \<Rightarrow> (Json 404 False (Some ''User not found'') NoData, s)
           | Some currentUser \<Rightarrow>
               if page = 0 \<and> limit > 0
               then (Json 500 False (Some ''Server error'') NoData, s)
               else
                 let cat = (case category of None \<Rightarrow> ''all'' | Some c \<Rightarrow> c);
                     found = list_query s (u_college currentUser) cat ((page - 1) * limit) limit
                 in (Json 200 True None
                       (ConfessionsData (map (format_confession (map_of p ''userId'')) found)
                          (length found = limit)),
                     s)))"

text \<open>\<^verbatim>\<open>GET /:id\<close> of the confessions router.\<close>

definition get_confession :: "db \<Rightarrow> authz \<Rightarrow> oid \<Rightarrow> response \<times> db" where
  "get_confession s a confessionId =
     (case auth_decode a of
        Inl r \<Rightarrow> (r, s)
      | Inr p \<Rightarrow>
          (case Option.bind (map_of p ''userId'') (findById_user s) of
             None \<Rightarrow> (Json 404 False (Some ''User not found'') NoData, s)
           | Some currentUser \<Rightarrow>
               (case findById_confession s confessionId of
                  None \<Rightarrow> (Json 404 False (Some ''Confession not found'') NoData, s)
                | Some confession \<Rightarrow>
                    if c_college confession \<noteq> u_college currentUser
                    then (Json 403 False (Some ''Access denied'') NoData, s)
                    else (Json 200 True None
                            (ConfessionData
                               (format_confession (map_of p ''userId'') confession)
                               (map (\<lambda>k. (k_id k, k_content k)) (c_comments confession))),
                          s))))"

text \<open>The update of the reaction list in \<^verbatim>\<open>POST /:id/react\<close>.\<close>

definition toggle_reaction :: "oid \<Rightarrow> string \<Rightarrow> reaction list \<Rightarrow> reaction list" where
  "toggle_reaction userId ty rs =
     (case findIndex (\<lambda>r. r_userId r = userId \<and> r_type r = ty) rs of
        Some existingReactionIndex \<Rightarrow> splice1 existingReactionIndex rs
      | None \<Rightarrow> filter (\<lambda>r. r_userId r \<noteq> userId) rs @ [\<lparr>r_userId = userId, r_type = ty\<rparr>])"

definition save_confession :: "db \<Rightarrow> confession \<Rightarrow> db" where
  "save_confession s c =
     s\<lparr>confessions := map (\<lambda>d. if c_id d = c_id c then c else d) (confessions s)\<rparr>"

text \<open>\<^verbatim>\<open>POST /:id/react\<close>. A token without \<^verbatim>\<open>userId\<close> makes the handler read a property of
  a missing reaction owner or fail the save; both end in the handler's catch.\<close>

definition react :: "db \<Rightarrow> authz \<Rightarrow> oid \<Rightarrow> string option \<Rightarrow> response \<times> db" where
  "react s a confessionId type =
     (case auth_decode a of
        Inl r \<Rightarrow> (r, s)
      | Inr p \<Rightarrow>
          (case type of
             None \<Rightarrow> (Json 400 False (Some ''Invalid reaction type'') NoData, s)
           | Some ty \<Rightarrow>
               if ty \<notin> set reaction_types
               then (Json 400 False (Some ''Invalid reaction type'') NoData, s)
               else
                 (case findById_confession s confessionId of
                    None \<Rightarrow> (Json 404 False (Some ''Confession not found'') NoData, s)
                  | Some confession \<Rightarrow>
                      (case map_of p ''userId'' of
                         None \<Rightarrow> (Json 500 False (Some ''Server error'') NoData, s)
                       | Some userId \<Rightarrow>
                           let rs = toggle_reaction userId ty (c_reactions confession)
                           in (Json 200 True None
                                 (ReactData (reactionCounts rs)
                                    (findIndex (\<lambda>r. r_userId r = userId \<and> r_type r = ty)
                                       (c_reactions confession) = None)),
                               save_confession s (confession\<lparr>c_reactions := rs\<rparr>))))))"

definition reactions_of :: "db \<Rightarrow> oid \<Rightarrow> oid \<Rightarrow> reaction list" where
  "reactions_of s confessionId userId =
     (case findById_confession s confessionId of
        None \<Rightarrow> []
      | Some c \<Rightarrow> filter (\<lambda>r. r_userId r = userId) (c_reactions c))"

definition counts_of :: "db \<Rightarrow> oid \<Rightarrow> reaction_counts" where
  "counts_of s confessionId =
     (case findById_confession s confessionId of
        None \<Rightarrow> \<lparr>heart = 0, laugh = 0, fire = 0, sad = 0\<rparr>
      | Some c \<Rightarrow> reactionCounts (c_reactions c))"

text \<open>Each user holds at most one reaction on each confession.\<close>

definition one_reaction_each :: "reaction list \<Rightarrow> bool" where
  "one_reaction_each rs = distinct (map r_userId rs)"

definition reactions_ok :: "db \<Rightarrow> bool" where
  "reactions_ok s = (\<forall>c \<in> set (confessions s). one_reaction_each (c_reactions c))"

section \<open>Photos router: the like toggle\<close>

text \<open>\<^verbatim>\<open>User.findOne({ 'photos.url': photoUrl })\<close>.\<close>

definition find_photo_owner :: "db \<Rightarrow> string \<Rightarrow> user option" where
  "find_photo_owner s photoUrl =
     find (\<lambda>u. list_ex (\<lambda>p. p_url p = photoUrl) (u_photos u)) (users s)"

text \<open>The toggle on one photo. \<open>currentUserId\<close> is \<^verbatim>\<open>req.user.id\<close>, which is undefined
  (\<open>None\<close>) when the decoded token has no \<^verbatim>\<open>id\<close> field. An entry of the liker list is an id
  or null (\<open>None\<close>); \<^verbatim>\<open>push\<close> appends whatever it is given.\<close>

definition toggle_photo :: "oid option \<Rightarrow> photo \<Rightarrow> photo" where
  "toggle_photo currentUserId photo =
     (let likes0 = (case p_likes photo of None \<Rightarrow> [] | Some l \<Rightarrow> l);
          likeCount0 = (case p_likeCount photo of None \<Rightarrow> 0 | Some n \<Rightarrow> n);
          likes1 = filter (\<lambda>userId. userId \<noteq> None) likes0;
          wasLiked = list_ex (\<lambda>userId. userId \<noteq> None \<and> userId = currentUserId) likes1
      in if wasLiked
         then photo\<lparr>p_likes := Some (filter (\<lambda>userId. userId \<noteq> None \<and> userId \<noteq> currentUserId)
                                        likes1),
                    p_likeCount := Some (max 0 (likeCount0 - 1))\<rparr>
         else photo\<lparr>p_likes := Some (likes1 @ [currentUserId]),
                    p_likeCount := Some (likeCount0 + 1)\<rparr>)"

definition like_response :: "oid option \<Rightarrow> photo \<Rightarrow> response" where
  "like_response currentUserId photo =
     Json 200 True None
       (LikeData (case p_likeCount photo of None \<Rightarrow> 0 | Some n \<Rightarrow> n)
          (case p_likes photo of None \<Rightarrow> False | Some l \<Rightarrow> currentUserId \<in> set l))"

text \<open>\<^verbatim>\<open>POST /like\<close>.\<close>

definition like_photo :: "db \<Rightarrow> authz \<Rightarrow> string option \<Rightarrow> response \<times> db" where
  "like_photo s a photoUrl =
     (case auth_decode a of
        Inl r \<Rightarrow> (r, s)
      | Inr p \<Rightarrow>
          let currentUserId = map_of p ''id'' in
          (case photoUrl of
             None \<Rightarrow> (Json 400 False (Some ''Photo URL is required'') NoData, s)
           | Some url \<Rightarrow>
               if url = [] then (Json 400 False (Some ''Photo URL is required'') NoData, s)
               else
                 (case find_photo_owner s url of
                    None \<Rightarrow> (Json 404 False (Some ''Photo not found'') NoData, s)
                  | Some photoOwner \<Rightarrow>
                      (case find (\<lambda>p. p_url p = url) (u_photos photoOwner) of
                         None \<Rightarrow> (Json 404 False (Some ''Photo not found'') NoData, s)
                       | Some photo \<Rightarrow>
                           let photo' = toggle_photo currentUserId photo;
                               owner' = photoOwner\<lparr>u_photos :=
                                          update_first (\<lambda>p. p_url p = url) (\<lambda>_. photo')
                                            (u_photos photoOwner)\<rparr>
                           in (like_response currentUserId photo', save_user s owner')))))"

text \<open>What a reader of the photo sees: the stored counter and whether the given user id is
  in the liker list (\<^verbatim>\<open>isLikedByCurrentUser\<close> of the discover endpoint).\<close>

definition photo_at :: "db \<Rightarrow> string \<Rightarrow> photo option" where
  "photo_at s url =
     (case find_photo_owner s url of
        None \<Rightarrow> None
      | Some u \<Rightarrow> find (\<lambda>p. p_url p = url) (u_photos u))"

definition isLikedBy :: "oid \<Rightarrow> photo \<Rightarrow> bool" where
  "isLikedBy userId photo =
     (case p_likes photo of None \<Rightarrow> False | Some l \<Rightarrow> Some userId \<in> set l)"

section \<open>Auth router: single-use tokens\<close>

text \<open>\<^verbatim>\<open>String.prototype.toLowerCase\<close> on the ASCII range.\<close>

definition lower_char :: "char \<Rightarrow> char" where
  "lower_char c =
     (let n = (of_char c :: nat) in if 65 \<le> n \<and> n \<le> 90 then char_of (n + 32) else c)"

definition toLowerCase :: "string \<Rightarrow> string" where
  "toLowerCase cs = map lower_char cs"

text \<open>The two token queries \<^verbatim>\<open>{ token: t, expires: { $gt: Date.now() } }\<close>.\<close>

definition verification_pending :: "string \<Rightarrow> date \<Rightarrow> user \<Rightarrow> bool" where
  "verification_pending token now u =
     (u_verificationToken u = Some token
      \<and> (case u_verificationTokenExpires u of None \<Rightarrow> False | Some e \<Rightarrow> e > now))"

definition reset_pending :: "string \<Rightarrow> date \<Rightarrow> user \<Rightarrow> bool" where
  "reset_pending token now u =
     (u_resetPasswordToken u = Some token
      \<and> (case u_resetPasswordExpires u of None \<Rightarrow> False | Some e \<Rightarrow> e > now))"

text \<open>\<^verbatim>\<open>GET /verify-email/:token\<close>. The pages are named by their headings.\<close>

definition verify_email :: "db \<Rightarrow> string \<Rightarrow> date \<Rightarrow> response \<times> db" where
  "verify_email s token now =
     (case find (verification_pending token now) (users s) of
        None \<Rightarrow> (Html 400 ''Invalid or Expired Link'', s)
      | Some user \<Rightarrow>
          (Html 200 ''Email Verified!'',
           save_user s (user\<lparr>u_isVerified := True, u_verificationToken := None,
                              u_verificationTokenExpires := None\<rparr>)))"

text \<open>\<^verbatim>\<open>POST /reset-password/:token\<close>. \<open>bcrypt\<close> is the salted hash that the pre-save hook
  applies when the password field was modified.\<close>

definition reset_password ::
  "(string \<Rightarrow> string) \<Rightarrow> db \<Rightarrow> string \<Rightarrow> string option \<Rightarrow> date \<Rightarrow> response \<times> db" where
  "reset_password bcrypt s token password now =
     (case password of
        None \<Rightarrow> (Json 400 False (Some ''Password must be at least 6 characters'') NoData, s)
      | Some pw \<Rightarrow>
          if pw = [] \<or> length pw < 6
          then (Json 400 False (Some ''Password must be at least 6 characters'') NoData, s)
          else
            (case find (reset_pending token now) (users s) of
               None \<Rightarrow> (Json 400 False (Some ''Invalid or expired reset token'') NoData, s)
             | Some user \<Rightarrow>
                 (Json 200 True (Some ''Password reset successful'') NoData,
                  save_user s
                    (user\<lparr>u_password := (if pw = u_password user then pw else bcrypt pw),
                          u_resetPasswordToken := None,
                          u_resetPasswordExpires := None\<rparr>))))"

text \<open>\<^verbatim>\<open>POST /forgot-password\<close>. \<open>resetToken\<close> is the random token; the mail helper catches
  its own failures, so its outcome does not reach the handler.\<close>

definition forgot_password :: "db \<Rightarrow> string option \<Rightarrow> string \<Rightarrow> date \<Rightarrow> response \<times> db" where
  "forgot_password s email resetToken now =
     (case email of
        None \<Rightarrow> (Json 400 False (Some ''Email is required'') NoData, s)
      | Some e \<Rightarrow>
          if e = [] then (Json 400 False (Some ''Email is required'') NoData, s)
          else
            (case find (\<lambda>u. u_email u = toLowerCase e) (users s) of
               None \<Rightarrow>
                 (Json 200 True
                    (Some ''If an account exists with this email, you will receive password reset instructions.'')
                    NoData, s)
             | Some user \<Rightarrow>
                 (Json 200 True
                    (Some ''If an account exists with this email, you will receive password reset instructions.'')
                    NoData,
                  save_user s (user\<lparr>u_resetPasswordToken := Some resetToken,
                                     u_resetPasswordExpires := Some (now + 60 * 60 * 1000)\<rparr>))))"

text \<open>How many accounts hold a given token.\<close>

definition reset_holders :: "db \<Rightarrow> string \<Rightarrow> user list" where
  "reset_holders s token = filter (\<lambda>u. u_resetPasswordToken u = Some token) (users s)"

definition verification_holders :: "db \<Rightarrow> string \<Rightarrow> user list" where
  "verification_holders s token = filter (\<lambda>u. u_verificationToken u = Some token) (users s)"

section \<open>Example states\<close>

definition mk_user :: "oid \<Rightarrow> string \<Rightarrow> string \<Rightarrow> string \<Rightarrow> photo list \<Rightarrow> user" where
  "mk_user i nm mail college ps =
     \<lparr>u_id = i, u_name = nm, u_email = mail, u_password = ''$2a$10$hash'', u_college = college,
      u_isVerified = True, u_verificationToken = None, u_verificationTokenExpires = None,
      u_resetPasswordToken = None, u_resetPasswordExpires = None, u_photos = ps\<rparr>"

definition alice :: user where
  "alice = mk_user ''a1'' ''Alice'' ''alice@abc.edu'' ''ABC''
             [new_photo ''http://img/1'' ''pic1'' True, new_photo ''http://img/2'' ''pic2'' False]"

definition bob :: user where
  "bob = mk_user ''b2'' ''Bob'' ''bob@abc.edu'' ''ABC'' []"

definition carol :: user where
  "carol = mk_user ''c3'' ''Carol'' ''carol@xyz.edu'' ''XYZ''
             (map (\<lambda>n. new_photo (''http://img/c'' @ n) (''cpic'' @ n) (n = ''1''))
                [''1'', ''2'', ''3'', ''4'', ''5'', ''6''])"

definition demo_db :: db where
  "demo_db = \<lparr>users = [alice, bob, carol], swipes = [], matches = [], messages = [],
              notifications = [], confessions = []\<rparr>"

definition token_of :: "oid \<Rightarrow> authz" where
  "token_of userId = Decoded (generateToken userId)"

text \<open>Bob likes Alice at time 1000; Alice likes Bob at time 2000.\<close>

definition liked_db :: db where
  "liked_db = snd (swipe_handler demo_db (token_of ''b2'') (Some ''a1'') (Some ''like'') 1000 ''m0'')"

definition matched_db :: db where
  "matched_db = snd (swipe_handler liked_db (token_of ''a1'') (Some ''b2'') (Some ''like'') 2000 ''m1'')"

text \<open>Two confessions, one from each college; Bob has reacted to the first.\<close>

definition conf1 :: confession where
  "conf1 = \<lparr>c_id = ''x1'', c_userId = ''b2'', c_content = ''test'', c_category = ''general'',
            c_college = ''ABC'', c_isAnonymous = True, c_isReported = False,
            c_reactions = [\<lparr>r_userId = ''b2'', r_type = ''heart''\<rparr>], c_comments = [],
            c_createdAt = 100\<rparr>"

definition conf2 :: confession where
  "conf2 = \<lparr>c_id = ''x2'', c_userId = ''c3'', c_content = ''hello'', c_category = ''funny'',
            c_college = ''XYZ'', c_isAnonymous = True, c_isReported = False,
            c_reactions = [], c_comments = [], c_createdAt = 200\<rparr>"

definition confession_db :: db where
  "confession_db = demo_db\<lparr>confessions := [conf1, conf2]\<rparr>"

text \<open>Alice has asked for a password reset at time 1000 (token \<^verbatim>\<open>r1\<close>); Bob has a pending
  e-mail verification (token \<^verbatim>\<open>v1\<close>).\<close>

definition pending_db :: db where
  "pending_db =
     demo_db\<lparr>users :=
       [alice\<lparr>u_resetPasswordToken := Some ''r1'',
              u_resetPasswordExpires := Some (1000 + 60 * 60 * 1000)\<rparr>,
        bob\<lparr>u_isVerified := False, u_verificationToken := Some ''v1'',
            u_verificationTokenExpires := Some 90000000\<rparr>,
        carol]\<rparr>"

text \<open>Alice's record after one and after two like requests on her first photo that carry
  no \<^verbatim>\<open>id\<close> in the token.\<close>

definition liked_once :: user where
  "liked_once = alice\<lparr>u_photos :=
           [(new_photo ''http://img/1'' ''pic1'' True)\<lparr>p_likes := Some [None], p_likeCount := Some 1\<rparr>,
            new_photo ''http://img/2'' ''pic2'' False]\<rparr>"

definition liked_twice :: user where
  "liked_twice = alice\<lparr>u_photos :=
           [(new_photo ''http://img/1'' ''pic1'' True)\<lparr>p_likes := Some [None], p_likeCount := Some 2\<rparr>,
            new_photo ''http://img/2'' ''pic2'' False]\<rparr>"

section \<open>Facts about the helpers\<close>

lemma findIndex_Some: "findIndex P xs = Some i \<Longrightarrow> i < length xs \<and> P (xs ! i)"
  by (induction xs arbitrary: i) (auto split: if_splits)

lemma findIndex_None: "findIndex P xs = None \<longleftrightarrow> (\<forall>x \<in> set xs. \<not> P x)"
  by (induction xs) auto

lemma find_Some_mem: "find P xs = Some x \<Longrightarrow> x \<in> set xs \<and> P x"
  by (induction xs) (auto split: if_splits)

lemma findById_user_mem: "findById_user s i = Some u \<Longrightarrow> u \<in> set (users s) \<and> u_id u = i"
  unfolding findById_user_def by (drule find_Some_mem) simp

lemma auth_Inr: "auth s a = Inr uid \<Longrightarrow> \<exists>u. findById_user s uid = Some u"
  unfolding auth_def by (auto split: authz.splits option.splits)

lemma photos_ok_save:
  "photos_ok s \<Longrightarrow> main_inv (u_photos u) \<Longrightarrow> photos_ok (save_user s u)"
  unfolding photos_ok_def save_user_def by auto

lemma filter_splice1:
  "i < length xs \<Longrightarrow>
   length (filter P (splice1 i xs)) = length (filter P xs) - (if P (xs ! i) then 1 else 0)"
proof (induction xs arbitrary: i)
  case Nil
  then show ?case by simp
next
  case (Cons x xs)
  show ?case
  proof (cases i)
    case 0
    then show ?thesis by (simp add: splice1_def)
  next
    case (Suc j)
    with Cons.prems have j: "j < length xs" by simp
    have "P (xs ! j) \<Longrightarrow> 0 < length (filter P xs)"
      using j by (metis filter_empty_conv length_greater_0_conv nth_mem)
    with Cons.IH[OF j] Suc show ?thesis
      by (auto simp: splice1_def)
  qed
qed

lemma main_inv_ensure_main:
  "length (filter p_isMain ps) \<le> 1 \<Longrightarrow> main_inv (ensure_main ps)"
proof (cases ps)
  case Nil
  then show ?thesis by (simp add: ensure_main_def main_inv_def)
next
  case (Cons q qs)
  assume le: "length (filter p_isMain ps) \<le> 1"
  show ?thesis
  proof (cases "list_ex p_isMain ps")
    case True
    then have "filter p_isMain ps \<noteq> []"
      by (simp add: list_ex_iff filter_empty_conv)
    then have "length (filter p_isMain ps) = 1"
      using le by (cases "filter p_isMain ps") auto
    with True Cons show ?thesis by (simp add: ensure_main_def main_inv_def)
  next
    case False
    then have "filter p_isMain qs = []"
      using Cons by (auto simp: list_ex_iff filter_empty_conv)
    with False Cons show ?thesis by (simp add: ensure_main_def main_inv_def)
  qed
qed

lemma main_inv_delete:
  assumes "main_inv ps" and "i < length ps"
  shows "main_inv (ensure_main (splice1 i ps))"
proof -
  from assms have "length (filter p_isMain ps) = 1"
    by (auto simp: main_inv_def)
  then have "length (filter p_isMain (splice1 i ps)) \<le> 1"
    using filter_splice1[OF assms(2), of p_isMain] by simp
  then show ?thesis by (rule main_inv_ensure_main)
qed

lemma filter_update_one:
  "i < length xs \<Longrightarrow> \<forall>x \<in> set xs. \<not> P x \<Longrightarrow> P y \<Longrightarrow> length (filter P (xs[i := y])) = 1"
proof (induction xs arbitrary: i)
  case Nil
  then show ?case by simp
next
  case (Cons x xs)
  then show ?case by (cases i) (auto simp: filter_empty_conv)
qed

lemma main_inv_set_main:
  assumes "i < length ps"
  shows "main_inv ((map (\<lambda>p. p\<lparr>p_isMain := False\<rparr>) ps)
                     [i := (map (\<lambda>p. p\<lparr>p_isMain := False\<rparr>) ps ! i)\<lparr>p_isMain := True\<rparr>])"
  unfolding main_inv_def
  by (rule disjI2, rule filter_update_one) (use assms in auto)

lemma main_inv_upload:
  "main_inv ps \<Longrightarrow> main_inv (ps @ [new_photo url pid (length ps = 0)])"
  by (auto simp: main_inv_def new_photo_def)

lemma find_replace_by_id:
  "find (\<lambda>u. u_id u = i) (map (\<lambda>v. if u_id v = u_id u then u else v) xs) =
     (if i = u_id u then (if \<exists>v \<in> set xs. u_id v = i then Some u else None)
      else find (\<lambda>u. u_id u = i) xs)"
  by (induction xs) auto

lemma photos_of_save_user:
  "findById_user s (u_id u) = Some u0 \<Longrightarrow>
   photos_of (save_user s u) v = (if v = u_id u then u_photos u else photos_of s v)"
  unfolding photos_of_def findById_user_def save_user_def
  by (auto simp: find_replace_by_id dest: find_Some_mem split: option.splits)

lemma upload_photo_unauth: "auth s a = Inl r \<Longrightarrow> upload_photo s a f c = (r, s)"
  by (simp add: upload_photo_def)

lemma upload_photo_cases:
  assumes "auth s a = Inr uid"
  shows "snd (upload_photo s a f c) = s \<and> status (fst (upload_photo s a f c)) \<noteq> 200 \<or>
         (\<exists>user url pid. findById_user s uid = Some user \<and> length (u_photos user) < 6 \<and>
            f \<and> c = Inr (url, pid) \<and>
            fst (upload_photo s a f c) = Json 200 True (Some ''Photo uploaded successfully'')
                 (PhotoData url pid (u_photos user = [])) \<and>
            snd (upload_photo s a f c) =
              save_user s (user\<lparr>u_photos := u_photos user @ [new_photo url pid (u_photos user = [])]\<rparr>))"
  using assms unfolding upload_photo_def
  by (auto split: option.splits sum.splits simp: Let_def)

lemma delete_photo_cases:
  assumes "auth s a = Inr uid"
  shows "snd (delete_photo s a pid) = s \<and> status (fst (delete_photo s a pid)) \<noteq> 200 \<or>
         (\<exists>user i. findById_user s uid = Some user \<and>
            findIndex (\<lambda>p. p_publicId p = pid) (u_photos user) = Some i \<and>
            status (fst (delete_photo s a pid)) = 200 \<and>
            snd (delete_photo s a pid) =
              save_user s (user\<lparr>u_photos := ensure_main (splice1 i (u_photos user))\<rparr>))"
  using assms unfolding delete_photo_def
  by (auto split: option.splits simp: Let_def)

lemma set_main_photo_cases:
  assumes "auth s a = Inr uid"
  shows "snd (set_main_photo s a pid) = s \<and> status (fst (set_main_photo s a pid)) \<noteq> 200 \<or>
         (\<exists>user i. findById_user s uid = Some user \<and>
            findIndex (\<lambda>p. p_publicId p = pid) (u_photos user) = Some i \<and>
            status (fst (set_main_photo s a pid)) = 200 \<and>
            snd (set_main_photo s a pid) =
              save_user s (user\<lparr>u_photos :=
                 (map (\<lambda>p. p\<lparr>p_isMain := False\<rparr>) (u_photos user))
                   [i := (map (\<lambda>p. p\<lparr>p_isMain := False\<rparr>) (u_photos user) ! i)\<lparr>p_isMain := True\<rparr>]\<rparr>))"
  using assms unfolding set_main_photo_def
  by (auto split: option.splits simp: Let_def)

lemma photos_ok_user: "photos_ok s \<Longrightarrow> findById_user s i = Some u \<Longrightarrow> main_inv (u_photos u)"
  unfolding photos_ok_def by (auto dest: findById_user_mem)

lemma photos_ok_upload:
  assumes "photos_ok s"
  shows "photos_ok (snd (upload_photo s a f c))"
proof (cases "auth s a")
  case (Inl r)
  with assms show ?thesis by (simp add: upload_photo_def)
next
  case (Inr uid)
  from upload_photo_cases[OF Inr, of f c] show ?thesis
  proof (elim disjE exE conjE)
    fix user url pid
    assume u: "findById_user s uid = Some user"
      and e: "snd (upload_photo s a f c) =
              save_user s (user\<lparr>u_photos := u_photos user @ [new_photo url pid (u_photos user = [])]\<rparr>)"
    have "main_inv (u_photos user @ [new_photo url pid (length (u_photos user) = 0)])"
      by (rule main_inv_upload) (rule photos_ok_user[OF assms u])
    then show ?thesis unfolding e using assms by (intro photos_ok_save) simp_all
  qed (use assms in simp)
qed

lemma photos_ok_delete:
  assumes "photos_ok s"
  shows "photos_ok (snd (delete_photo s a pid))"
proof (cases "auth s a")
  case (Inl r)
  with assms show ?thesis by (simp add: delete_photo_def)
next
  case (Inr uid)
  from delete_photo_cases[OF Inr, of pid] show ?thesis
  proof (elim disjE exE conjE)
    fix user i
    assume u: "findById_user s uid = Some user"
      and i: "findIndex (\<lambda>p. p_publicId p = pid) (u_photos user) = Some i"
      and e: "snd (delete_photo s a pid) =
              save_user s (user\<lparr>u_photos := ensure_main (splice1 i (u_photos user))\<rparr>)"
    have "main_inv (ensure_main (splice1 i (u_photos user)))"
      using photos_ok_user[OF assms u] findIndex_Some[OF i] by (intro main_inv_delete) simp_all
    then show ?thesis unfolding e using assms by (intro photos_ok_save) simp_all
  qed (use assms in simp)
qed

lemma photos_ok_set_main:
  assumes "photos_ok s"
  shows "photos_ok (snd (set_main_photo s a pid))"
proof (cases "auth s a")
  case (Inl r)
  with assms show ?thesis by (simp add: set_main_photo_def)
next
  case (Inr uid)
  from set_main_photo_cases[OF Inr, of pid] show ?thesis
  proof (elim disjE exE conjE)
    fix user i
    assume u: "findById_user s uid = Some user"
      and i: "findIndex (\<lambda>p. p_publicId p = pid) (u_photos user) = Some i"
      and e: "snd (set_main_photo s a pid) =
              save_user s (user\<lparr>u_photos :=
                 (map (\<lambda>p. p\<lparr>p_isMain := False\<rparr>) (u_photos user))
                   [i := (map (\<lambda>p. p\<lparr>p_isMain := False\<rparr>) (u_photos user) ! i)\<lparr>p_isMain := True\<rparr>]\<rparr>)"
    have "main_inv ((map (\<lambda>p. p\<lparr>p_isMain := False\<rparr>) (u_photos user))
                   [i := (map (\<lambda>p. p\<lparr>p_isMain := False\<rparr>) (u_photos user) ! i)\<lparr>p_isMain := True\<rparr>])"
      using findIndex_Some[OF i] by (intro main_inv_set_main) simp
    then show ?thesis unfolding e using assms by (intro photos_ok_save) simp_all
  qed (use assms in simp)
qed

lemma upload_first_is_main:
  assumes "auth s a = Inr uid"
    and "fst (upload_photo s a f c) = Json 200 True m (PhotoData url pid isMain)"
  shows "isMain = (photos_of s uid = []) \<and>
         photos_of (snd (upload_photo s a f c)) uid = photos_of s uid @ [new_photo url pid isMain]"
proof -
  from upload_photo_cases[OF assms(1), of f c] assms(2)
  obtain user url' pid' where
    u: "findById_user s uid = Some user" and
    r: "fst (upload_photo s a f c) = Json 200 True (Some ''Photo uploaded successfully'')
                 (PhotoData url' pid' (u_photos user = []))" and
    e: "snd (upload_photo s a f c) =
              save_user s (user\<lparr>u_photos := u_photos user @ [new_photo url' pid' (u_photos user = [])]\<rparr>)"
    by auto
  from r assms(2) have eq: "url' = url" "pid' = pid" "isMain = (u_photos user = [])" by simp_all
  from u have id: "u_id user = uid" by (simp add: findById_user_mem)
  have p: "photos_of s uid = u_photos user" using u by (simp add: photos_of_def)
  show ?thesis
    unfolding e p using eq id u
      photos_of_save_user[of s "user\<lparr>u_photos := u_photos user @ [new_photo url' pid' (u_photos user = [])]\<rparr>" user uid]
    by simp
qed

lemma set_main_selected:
  assumes "auth s a = Inr uid" and "status (fst (set_main_photo s a pid)) = 200"
  shows "\<exists>i < length (photos_of s uid).
           p_publicId (photos_of s uid ! i) = pid \<and>
           length (photos_of (snd (set_main_photo s a pid)) uid) = length (photos_of s uid) \<and>
           (\<forall>j < length (photos_of s uid).
              p_isMain (photos_of (snd (set_main_photo s a pid)) uid ! j) = (j = i) \<and>
              p_publicId (photos_of (snd (set_main_photo s a pid)) uid ! j) =
                p_publicId (photos_of s uid ! j))"
proof -
  from set_main_photo_cases[OF assms(1), of pid] assms(2)
  obtain user i where
    u: "findById_user s uid = Some user" and
    i: "findIndex (\<lambda>p. p_publicId p = pid) (u_photos user) = Some i" and
    e: "snd (set_main_photo s a pid) =
              save_user s (user\<lparr>u_photos :=
                 (map (\<lambda>p. p\<lparr>p_isMain := False\<rparr>) (u_photos user))
                   [i := (map (\<lambda>p. p\<lparr>p_isMain := False\<rparr>) (u_photos user) ! i)\<lparr>p_isMain := True\<rparr>]\<rparr>)"
    by auto
  from u have id: "u_id user = uid" by (simp add: findById_user_mem)
  have p: "photos_of s uid = u_photos user" using u by (simp add: photos_of_def)
  have p': "photos_of (snd (set_main_photo s a pid)) uid =
              (map (\<lambda>p. p\<lparr>p_isMain := False\<rparr>) (u_photos user))
                   [i := (map (\<lambda>p. p\<lparr>p_isMain := False\<rparr>) (u_photos user) ! i)\<lparr>p_isMain := True\<rparr>]"
    unfolding e using id u
      photos_of_save_user[of s "user\<lparr>u_photos :=
                 (map (\<lambda>p. p\<lparr>p_isMain := False\<rparr>) (u_photos user))
                   [i := (map (\<lambda>p. p\<lparr>p_isMain := False\<rparr>) (u_photos user) ! i)\<lparr>p_isMain := True\<rparr>]\<rparr>" user uid]
    by simp
  from findIndex_Some[OF i] have il: "i < length (u_photos user)"
    and ip: "p_publicId (u_photos user ! i) = pid" by simp_all
  show ?thesis
    unfolding p p' using il ip
    by (intro exI[of _ i]) (auto simp: nth_list_update)
qed

lemma delete_removes_one:
  assumes "auth s a = Inr uid" and "status (fst (delete_photo s a pid)) = 200"
  shows "length (photos_of (snd (delete_photo s a pid)) uid) + 1 = length (photos_of s uid)"
proof -
  from delete_photo_cases[OF assms(1), of pid] assms(2)
  obtain user i where
    u: "findById_user s uid = Some user" and
    i: "findIndex (\<lambda>p. p_publicId p = pid) (u_photos user) = Some i" and
    e: "snd (delete_photo s a pid) =
              save_user s (user\<lparr>u_photos := ensure_main (splice1 i (u_photos user))\<rparr>)"
    by auto
  from u have id: "u_id user = uid" by (simp add: findById_user_mem)
  have p: "photos_of s uid = u_photos user" using u by (simp add: photos_of_def)
  have p': "photos_of (snd (delete_photo s a pid)) uid = ensure_main (splice1 i (u_photos user))"
    unfolding e using id u
      photos_of_save_user[of s "user\<lparr>u_photos := ensure_main (splice1 i (u_photos user))\<rparr>" user uid]
    by simp
  have len: "length (ensure_main ps) = length ps" for ps
    by (cases ps) (auto simp: ensure_main_def)
  from findIndex_Some[OF i] have "i < length (u_photos user)" by simp
  then show ?thesis unfolding p p' len by (simp add: splice1_def)
qed

lemma photos_ok_photos_of: "photos_ok s \<Longrightarrow> main_inv (photos_of s uid)"
  unfolding photos_of_def by (auto split: option.splits dest: photos_ok_user simp: main_inv_def)

section \<open>Profile photos: the cap and the main photo\<close>

text \<open>
  C9. The upload endpoint caps the photo list at six entries: an authenticated user who
  already has six or more photos gets status 400 and the store is left as it was, and for
  every user the list after an upload is no longer than the larger of six and its length
  before.
\<close>

theorem upload_photo_cap:
  "(auth s a = Inr uid \<and> 6 \<le> length (photos_of s uid) \<longrightarrow>
      status (fst (upload_photo s a has_file cloud)) = 400 \<and>
      snd (upload_photo s a has_file cloud) = s) \<and>
   length (photos_of (snd (upload_photo s a has_file cloud)) v) \<le> max 6 (length (photos_of s v))"
proof (intro conjI impI)
  assume h: "auth s a = Inr uid \<and> 6 \<le> length (photos_of s uid)"
  then obtain u where u: "findById_user s uid = Some u" using auth_Inr by blast
  with h have "6 \<le> length (u_photos u)" by (simp add: photos_of_def)
  with h u show "status (fst (upload_photo s a has_file cloud)) = 400"
    and "snd (upload_photo s a has_file cloud) = s"
    by (simp_all add: upload_photo_def)
next
  show "length (photos_of (snd (upload_photo s a has_file cloud)) v)
          \<le> max 6 (length (photos_of s v))"
  proof (cases "auth s a")
    case (Inl r)
    then show ?thesis by (simp add: upload_photo_unauth)
  next
    case (Inr uid)
    from upload_photo_cases[OF Inr, of has_file cloud] show ?thesis
    proof (elim disjE exE conjE)
      fix user url pid
      assume f: "findById_user s uid = Some user" and l: "length (u_photos user) < 6"
        and e: "snd (upload_photo s a has_file cloud) =
                  save_user s (user\<lparr>u_photos :=
                     u_photos user @ [new_photo url pid (u_photos user = [])]\<rparr>)"
      from f have id: "u_id user = uid" by (simp add: findById_user_mem)
      have "photos_of (snd (upload_photo s a has_file cloud)) v =
              (if v = uid then u_photos user @ [new_photo url pid (u_photos user = [])]
               else photos_of s v)"
        unfolding e
        using f id photos_of_save_user[of s "user\<lparr>u_photos :=
                u_photos user @ [new_photo url pid (u_photos user = [])]\<rparr>" user v]
        by simp
      with l show ?thesis by auto
    qed simp
  qed
qed

lemma demo_auth:
  "auth demo_db (token_of ''a1'') = Inr ''a1''"
  "auth demo_db (token_of ''b2'') = Inr ''b2''"
  "auth demo_db (token_of ''c3'') = Inr ''c3''"
  by (simp_all add: auth_def token_of_def generateToken_def findById_user_def demo_db_def
        alice_def bob_def carol_def mk_user_def)

lemma demo_photos:
  "photos_of demo_db ''a1'' = u_photos alice"
  "photos_of demo_db ''b2'' = []"
  "photos_of demo_db ''c3'' = u_photos carol"
  by (simp_all add: photos_of_def findById_user_def demo_db_def alice_def bob_def carol_def
        mk_user_def)

theorem upload_photo_cap_witness:
  "auth demo_db (token_of ''c3'') = Inr ''c3'' \<and> 6 \<le> length (photos_of demo_db ''c3'') \<and>
   status (fst (upload_photo demo_db (token_of ''c3'') True (Inr (''http://img/c7'', ''cpic7''))))
     = 400 \<and>
   snd (upload_photo demo_db (token_of ''c3'') True (Inr (''http://img/c7'', ''cpic7'')))
     = demo_db"
proof -
  have h: "auth demo_db (token_of ''c3'') = Inr ''c3'' \<and> 6 \<le> length (photos_of demo_db ''c3'')"
    by (simp add: demo_auth demo_photos carol_def mk_user_def)
  from upload_photo_cap[of demo_db "token_of ''c3''" "''c3''" True
      "Inr (''http://img/c7'', ''cpic7'')"] h
  show ?thesis by blast
qed

lemma photos_of_user: "findById_user s uid = Some user \<Longrightarrow> photos_of s uid = u_photos user"
  by (simp add: photos_of_def)

lemma upload_photo_succeeds:
  assumes "auth s a = Inr uid" and "length (photos_of s uid) < 6"
  shows "fst (upload_photo s a True (Inr (url, p))) =
           Json 200 True (Some ''Photo uploaded successfully'')
             (PhotoData url p (photos_of s uid = []))"
    and "photos_of (snd (upload_photo s a True (Inr (url, p)))) uid =
           photos_of s uid @ [new_photo url p (photos_of s uid = [])]"
proof -
  from auth_Inr[OF assms(1)] obtain user where u: "findById_user s uid = Some user" by blast
  note ps = photos_of_user[OF u]
  from assms u show r: "fst (upload_photo s a True (Inr (url, p))) =
           Json 200 True (Some ''Photo uploaded successfully'')
             (PhotoData url p (photos_of s uid = []))"
    unfolding ps upload_photo_def by (simp add: Let_def)
  from upload_first_is_main[OF assms(1) r]
  show "photos_of (snd (upload_photo s a True (Inr (url, p)))) uid =
           photos_of s uid @ [new_photo url p (photos_of s uid = [])]"
    by simp
qed

lemma clear_ensure_main:
  "map (\<lambda>q. q\<lparr>p_isMain := False\<rparr>) (ensure_main ps) = map (\<lambda>q. q\<lparr>p_isMain := False\<rparr>) ps"
  by (cases ps) (simp_all add: ensure_main_def)

lemma delete_photo_succeeds:
  assumes "auth s a = Inr uid"
    and "findIndex (\<lambda>q. p_publicId q = pid) (photos_of s uid) = Some i"
  shows "status (fst (delete_photo s a pid)) = 200"
    and "map (\<lambda>q. q\<lparr>p_isMain := False\<rparr>) (photos_of (snd (delete_photo s a pid)) uid) =
           splice1 i (map (\<lambda>q. q\<lparr>p_isMain := False\<rparr>) (photos_of s uid))"
proof -
  from auth_Inr[OF assms(1)] obtain user where u: "findById_user s uid = Some user" by blast
  note ps = photos_of_user[OF u]
  from u have id: "u_id user = uid" by (simp add: findById_user_mem)
  from assms u show "status (fst (delete_photo s a pid)) = 200"
    unfolding ps delete_photo_def by (simp add: Let_def)
  have e: "snd (delete_photo s a pid) =
             save_user s (user\<lparr>u_photos := ensure_main (splice1 i (u_photos user))\<rparr>)"
    using assms u unfolding ps delete_photo_def by (simp add: Let_def)
  have "photos_of (snd (delete_photo s a pid)) uid = ensure_main (splice1 i (u_photos user))"
    unfolding e using id u
      photos_of_save_user[of s "user\<lparr>u_photos := ensure_main (splice1 i (u_photos user))\<rparr>"
        user uid]
    by simp
  then show "map (\<lambda>q. q\<lparr>p_isMain := False\<rparr>) (photos_of (snd (delete_photo s a pid)) uid) =
           splice1 i (map (\<lambda>q. q\<lparr>p_isMain := False\<rparr>) (photos_of s uid))"
    unfolding ps by (simp add: clear_ensure_main splice1_def take_map drop_map)
qed

lemma set_main_photo_succeeds:
  assumes "auth s a = Inr uid"
    and "findIndex (\<lambda>q. p_publicId q = pid) (photos_of s uid) = Some i"
  shows "status (fst (set_main_photo s a pid)) = 200"
    and "length (photos_of (snd (set_main_photo s a pid)) uid) = length (photos_of s uid)"
    and "\<forall>j < length (photos_of s uid).
           photos_of (snd (set_main_photo s a pid)) uid ! j =
             (photos_of s uid ! j)\<lparr>p_isMain := (j = i)\<rparr>"
proof -
  from auth_Inr[OF assms(1)] obtain user where u: "findById_user s uid = Some user" by blast
  note ps = photos_of_user[OF u]
  from u have id: "u_id user = uid" by (simp add: findById_user_mem)
  let ?new = "(map (\<lambda>p. p\<lparr>p_isMain := False\<rparr>) (u_photos user))
                [i := (map (\<lambda>p. p\<lparr>p_isMain := False\<rparr>) (u_photos user) ! i)\<lparr>p_isMain := True\<rparr>]"
  from assms u show "status (fst (set_main_photo s a pid)) = 200"
    unfolding ps set_main_photo_def by (simp add: Let_def)
  have e: "snd (set_main_photo s a pid) = save_user s (user\<lparr>u_photos := ?new\<rparr>)"
    using assms u unfolding ps set_main_photo_def by (simp add: Let_def)
  have p': "photos_of (snd (set_main_photo s a pid)) uid = ?new"
    unfolding e using id u photos_of_save_user[of s "user\<lparr>u_photos := ?new\<rparr>" user uid]
    by simp
  from assms(2) have il: "i < length (u_photos user)"
    unfolding ps by (simp add: findIndex_Some)
  show "length (photos_of (snd (set_main_photo s a pid)) uid) = length (photos_of s uid)"
    unfolding p' ps by simp
  show "\<forall>j < length (photos_of s uid).
           photos_of (snd (set_main_photo s a pid)) uid ! j =
             (photos_of s uid ! j)\<lparr>p_isMain := (j = i)\<rparr>"
    unfolding p' ps using il by (auto simp: nth_list_update)
qed

text \<open>
  C8. A non-empty photo list has exactly one main photo, and the three photo operations
  keep it so. A user without photos satisfies the invariant. An upload appends the photo,
  which is main exactly when the list was empty. A deletion removes one photo, and if photos
  remain exactly one of them is main. Setting the main photo leaves the chosen photo as the
  only main one and changes nothing else about which photos there are. The operations do
  take place: an authenticated user with fewer than six photos whose image the host
  accepts gets the photo appended; for a public id that is in the user's list, at its
  first position i, the deletion removes exactly the photo at i (main flags apart) and
  setting the main photo makes the photo at i the main one and no other.
\<close>

theorem main_photo_invariant:
  assumes "photos_ok s"
  shows "photos_ok (snd (upload_photo s a has_file cloud)) \<and>
         photos_ok (snd (delete_photo s a pid)) \<and>
         photos_ok (snd (set_main_photo s a pid)) \<and>
         main_inv [] \<and>
         (auth s a = Inr uid \<longrightarrow>
            (\<forall>m url p isMain.
               fst (upload_photo s a has_file cloud) = Json 200 True m (PhotoData url p isMain) \<longrightarrow>
               isMain = (photos_of s uid = []) \<and>
               photos_of (snd (upload_photo s a has_file cloud)) uid =
                 photos_of s uid @ [new_photo url p isMain]) \<and>
            (status (fst (delete_photo s a pid)) = 200 \<longrightarrow>
               length (photos_of (snd (delete_photo s a pid)) uid) + 1 = length (photos_of s uid) \<and>
               (photos_of (snd (delete_photo s a pid)) uid \<noteq> [] \<longrightarrow>
                  length (filter p_isMain (photos_of (snd (delete_photo s a pid)) uid)) = 1)) \<and>
            (status (fst (set_main_photo s a pid)) = 200 \<longrightarrow>
               (\<exists>i < length (photos_of s uid).
                  p_publicId (photos_of s uid ! i) = pid \<and>
                  length (photos_of (snd (set_main_photo s a pid)) uid) =
                    length (photos_of s uid) \<and>
                  (\<forall>j < length (photos_of s uid).
                     p_isMain (photos_of (snd (set_main_photo s a pid)) uid ! j) = (j = i) \<and>
                     p_publicId (photos_of (snd (set_main_photo s a pid)) uid ! j) =
                       p_publicId (photos_of s uid ! j)))) \<and>
            (length (photos_of s uid) < 6 \<longrightarrow>
               fst (upload_photo s a True (Inr (new_url, new_pid))) =
                 Json 200 True (Some ''Photo uploaded successfully'')
                   (PhotoData new_url new_pid (photos_of s uid = [])) \<and>
               photos_of (snd (upload_photo s a True (Inr (new_url, new_pid)))) uid =
                 photos_of s uid @ [new_photo new_url new_pid (photos_of s uid = [])]) \<and>
            (\<forall>i. findIndex (\<lambda>q. p_publicId q = pid) (photos_of s uid) = Some i \<longrightarrow>
               status (fst (delete_photo s a pid)) = 200 \<and>
               map (\<lambda>q. q\<lparr>p_isMain := False\<rparr>) (photos_of (snd (delete_photo s a pid)) uid) =
                 splice1 i (map (\<lambda>q. q\<lparr>p_isMain := False\<rparr>) (photos_of s uid)) \<and>
               status (fst (set_main_photo s a pid)) = 200 \<and>
               length (photos_of (snd (set_main_photo s a pid)) uid) =
                 length (photos_of s uid) \<and>
               (\<forall>j < length (photos_of s uid).
                  photos_of (snd (set_main_photo s a pid)) uid ! j =
                    (photos_of s uid ! j)\<lparr>p_isMain := (j = i)\<rparr>)))"
proof (intro conjI impI allI)
  show "photos_ok (snd (upload_photo s a has_file cloud))"
    by (rule photos_ok_upload[OF assms])
  show "photos_ok (snd (delete_photo s a pid))"
    by (rule photos_ok_delete[OF assms])
  show "photos_ok (snd (set_main_photo s a pid))"
    by (rule photos_ok_set_main[OF assms])
  show "main_inv []" by (simp add: main_inv_def)
next
  fix m url p isMain
  assume "auth s a = Inr uid"
    and "fst (upload_photo s a has_file cloud) = Json 200 True m (PhotoData url p isMain)"
  from upload_first_is_main[OF this]
  show "isMain = (photos_of s uid = [])"
    and "photos_of (snd (upload_photo s a has_file cloud)) uid =
           photos_of s uid @ [new_photo url p isMain]"
    by simp_all
next
  assume "auth s a = Inr uid" and "status (fst (delete_photo s a pid)) = 200"
  then show "length (photos_of (snd (delete_photo s a pid)) uid) + 1 = length (photos_of s uid)"
    by (rule delete_removes_one)
next
  assume "photos_of (snd (delete_photo s a pid)) uid \<noteq> []"
  moreover have "main_inv (photos_of (snd (delete_photo s a pid)) uid)"
    by (rule photos_ok_photos_of) (rule photos_ok_delete[OF assms])
  ultimately show "length (filter p_isMain (photos_of (snd (delete_photo s a pid)) uid)) = 1"
    by (simp add: main_inv_def)
next
  assume "auth s a = Inr uid" and "status (fst (set_main_photo s a pid)) = 200"
  then show "\<exists>i < length (photos_of s uid).
                  p_publicId (photos_of s uid ! i) = pid \<and>
                  length (photos_of (snd (set_main_photo s a pid)) uid) =
                    length (photos_of s uid) \<and>
                  (\<forall>j < length (photos_of s uid).
                     p_isMain (photos_of (snd (set_main_photo s a pid)) uid ! j) = (j = i) \<and>
                     p_publicId (photos_of (snd (set_main_photo s a pid)) uid ! j) =
                       p_publicId (photos_of s uid ! j))"
    by (rule set_main_selected)
next
  assume "auth s a = Inr uid" and "length (photos_of s uid) < 6"
  from upload_photo_succeeds[OF this, of new_url new_pid]
  show "fst (upload_photo s a True (Inr (new_url, new_pid))) =
                 Json 200 True (Some ''Photo uploaded successfully'')
                   (PhotoData new_url new_pid (photos_of s uid = []))"
    and "photos_of (snd (upload_photo s a True (Inr (new_url, new_pid)))) uid =
                 photos_of s uid @ [new_photo new_url new_pid (photos_of s uid = [])]"
    by simp_all
next
  fix i
  assume a: "auth s a = Inr uid"
    and i: "findIndex (\<lambda>q. p_publicId q = pid) (photos_of s uid) = Some i"
  from delete_photo_succeeds[OF a i]
  show "status (fst (delete_photo s a pid)) = 200"
    and "map (\<lambda>q. q\<lparr>p_isMain := False\<rparr>) (photos_of (snd (delete_photo s a pid)) uid) =
                 splice1 i (map (\<lambda>q. q\<lparr>p_isMain := False\<rparr>) (photos_of s uid))"
    by simp_all
  from set_main_photo_succeeds[OF a i]
  show "status (fst (set_main_photo s a pid)) = 200"
    and "length (photos_of (snd (set_main_photo s a pid)) uid) = length (photos_of s uid)"
    by simp_all
  fix j
  assume "j < length (photos_of s uid)"
  with set_main_photo_succeeds(3)[OF a i]
  show "photos_of (snd (set_main_photo s a pid)) uid ! j =
          (photos_of s uid ! j)\<lparr>p_isMain := (j = i)\<rparr>"
    by simp
qed

lemma demo_photos_ok: "photos_ok demo_db"
  by (simp add: photos_ok_def main_inv_def demo_db_def alice_def bob_def carol_def mk_user_def
        new_photo_def)

lemma demo_delete_main:
  "status (fst (delete_photo demo_db (token_of ''a1'') ''pic1'')) = 200"
  "photos_of (snd (delete_photo demo_db (token_of ''a1'') ''pic1'')) ''a1'' =
     [new_photo ''http://img/2'' ''pic2'' True]"
  unfolding delete_photo_def demo_auth
  by (simp_all add: findById_user_def demo_db_def alice_def bob_def
        carol_def mk_user_def new_photo_def save_user_def photos_of_def splice1_def
        ensure_main_def)

lemma demo_find_pic2:
  "findIndex (\<lambda>q. p_publicId q = ''pic2'') (photos_of demo_db ''a1'') = Some 1"
  "findIndex (\<lambda>q. p_publicId q = ''pic1'') (photos_of demo_db ''a1'') = Some 0"
  "photos_of demo_db ''a1'' =
     [new_photo ''http://img/1'' ''pic1'' True, new_photo ''http://img/2'' ''pic2'' False]"
  by (simp_all add: demo_photos alice_def mk_user_def new_photo_def)

theorem main_photo_invariant_witness:
  "photos_ok demo_db \<and> auth demo_db (token_of ''a1'') = Inr ''a1'' \<and>
   status (fst (delete_photo demo_db (token_of ''a1'') ''pic1'')) = 200 \<and>
   photos_of (snd (delete_photo demo_db (token_of ''a1'') ''pic1'')) ''a1'' \<noteq> [] \<and>
   photos_ok (snd (delete_photo demo_db (token_of ''a1'') ''pic1'')) \<and>
   length (filter p_isMain
     (photos_of (snd (delete_photo demo_db (token_of ''a1'') ''pic1'')) ''a1'')) = 1 \<and>
   auth demo_db (token_of ''b2'') = Inr ''b2'' \<and> photos_of demo_db ''b2'' = [] \<and>
   fst (upload_photo demo_db (token_of ''b2'') True (Inr (''http://img/b1'', ''bpic1''))) =
     Json 200 True (Some ''Photo uploaded successfully'')
       (PhotoData ''http://img/b1'' ''bpic1'' True) \<and>
   photos_of (snd (upload_photo demo_db (token_of ''b2'') True (Inr (''http://img/b1'', ''bpic1''))))
     ''b2'' = [new_photo ''http://img/b1'' ''bpic1'' True] \<and>
   fst (upload_photo demo_db (token_of ''a1'') True (Inr (''http://img/3'', ''pic3''))) =
     Json 200 True (Some ''Photo uploaded successfully'')
       (PhotoData ''http://img/3'' ''pic3'' False) \<and>
   photos_of (snd (upload_photo demo_db (token_of ''a1'') True (Inr (''http://img/3'', ''pic3''))))
     ''a1'' =
     [new_photo ''http://img/1'' ''pic1'' True, new_photo ''http://img/2'' ''pic2'' False,
      new_photo ''http://img/3'' ''pic3'' False] \<and>
   findIndex (\<lambda>q. p_publicId q = ''pic2'') (photos_of demo_db ''a1'') = Some 1 \<and>
   status (fst (set_main_photo demo_db (token_of ''a1'') ''pic2'')) = 200 \<and>
   length (photos_of (snd (set_main_photo demo_db (token_of ''a1'') ''pic2'')) ''a1'') = 2 \<and>
   photos_of (snd (set_main_photo demo_db (token_of ''a1'') ''pic2'')) ''a1'' ! 0 =
     new_photo ''http://img/1'' ''pic1'' False \<and>
   photos_of (snd (set_main_photo demo_db (token_of ''a1'') ''pic2'')) ''a1'' ! 1 =
     new_photo ''http://img/2'' ''pic2'' True"
proof -
  note t = main_photo_invariant[OF demo_photos_ok, of "token_of ''a1''" True
      "Inr (''http://img/3'', ''pic3'')" "''pic1''" "''a1''"]
  have ne: "photos_of (snd (delete_photo demo_db (token_of ''a1'') ''pic1'')) ''a1'' \<noteq> []"
    by (simp add: demo_delete_main)
  from t demo_photos_ok demo_auth(1) demo_delete_main(1) ne
  have 1: "photos_ok demo_db \<and> auth demo_db (token_of ''a1'') = Inr ''a1'' \<and>
   status (fst (delete_photo demo_db (token_of ''a1'') ''pic1'')) = 200 \<and>
   photos_of (snd (delete_photo demo_db (token_of ''a1'') ''pic1'')) ''a1'' \<noteq> [] \<and>
   photos_ok (snd (delete_photo demo_db (token_of ''a1'') ''pic1'')) \<and>
   length (filter p_isMain
     (photos_of (snd (delete_photo demo_db (token_of ''a1'') ''pic1'')) ''a1'')) = 1"
    by blast
  note b = main_photo_invariant[OF demo_photos_ok, where a = "token_of ''b2''"
      and uid = "''b2''" and new_url = "''http://img/b1''" and new_pid = "''bpic1''"]
  have lb: "length (photos_of demo_db ''b2'') < 6" by (simp add: demo_photos)
  from b demo_auth(2) lb
  have "fst (upload_photo demo_db (token_of ''b2'') True (Inr (''http://img/b1'', ''bpic1''))) =
     Json 200 True (Some ''Photo uploaded successfully'')
       (PhotoData ''http://img/b1'' ''bpic1'' (photos_of demo_db ''b2'' = [])) \<and>
   photos_of (snd (upload_photo demo_db (token_of ''b2'') True (Inr (''http://img/b1'', ''bpic1''))))
     ''b2'' = photos_of demo_db ''b2'' @
        [new_photo ''http://img/b1'' ''bpic1'' (photos_of demo_db ''b2'' = [])]"
    by blast
  then have 2: "fst (upload_photo demo_db (token_of ''b2'') True (Inr (''http://img/b1'', ''bpic1''))) =
     Json 200 True (Some ''Photo uploaded successfully'')
       (PhotoData ''http://img/b1'' ''bpic1'' True) \<and>
   photos_of (snd (upload_photo demo_db (token_of ''b2'') True (Inr (''http://img/b1'', ''bpic1''))))
     ''b2'' = [new_photo ''http://img/b1'' ''bpic1'' True]"
    by (simp add: demo_photos)
  note c = main_photo_invariant[OF demo_photos_ok, where a = "token_of ''a1''"
      and uid = "''a1''" and pid = "''pic2''" and new_url = "''http://img/3''"
      and new_pid = "''pic3''"]
  have la: "length (photos_of demo_db ''a1'') < 6" by (simp add: demo_find_pic2)
  from c demo_auth(1) la
  have "fst (upload_photo demo_db (token_of ''a1'') True (Inr (''http://img/3'', ''pic3''))) =
     Json 200 True (Some ''Photo uploaded successfully'')
       (PhotoData ''http://img/3'' ''pic3'' (photos_of demo_db ''a1'' = [])) \<and>
   photos_of (snd (upload_photo demo_db (token_of ''a1'') True (Inr (''http://img/3'', ''pic3''))))
     ''a1'' = photos_of demo_db ''a1'' @
        [new_photo ''http://img/3'' ''pic3'' (photos_of demo_db ''a1'' = [])]"
    by blast
  then have 3: "fst (upload_photo demo_db (token_of ''a1'') True (Inr (''http://img/3'', ''pic3''))) =
     Json 200 True (Some ''Photo uploaded successfully'')
       (PhotoData ''http://img/3'' ''pic3'' False) \<and>
   photos_of (snd (upload_photo demo_db (token_of ''a1'') True (Inr (''http://img/3'', ''pic3''))))
     ''a1'' =
     [new_photo ''http://img/1'' ''pic1'' True, new_photo ''http://img/2'' ''pic2'' False,
      new_photo ''http://img/3'' ''pic3'' False]"
    by (simp add: demo_find_pic2)
  from c demo_auth(1) demo_find_pic2(1)
  have m: "status (fst (set_main_photo demo_db (token_of ''a1'') ''pic2'')) = 200 \<and>
       length (photos_of (snd (set_main_photo demo_db (token_of ''a1'') ''pic2'')) ''a1'') =
         length (photos_of demo_db ''a1'') \<and>
       (\<forall>j < length (photos_of demo_db ''a1'').
          photos_of (snd (set_main_photo demo_db (token_of ''a1'') ''pic2'')) ''a1'' ! j =
            (photos_of demo_db ''a1'' ! j)\<lparr>p_isMain := (j = 1)\<rparr>)"
    by blast
  then have 4: "status (fst (set_main_photo demo_db (token_of ''a1'') ''pic2'')) = 200 \<and>
   length (photos_of (snd (set_main_photo demo_db (token_of ''a1'') ''pic2'')) ''a1'') = 2 \<and>
   photos_of (snd (set_main_photo demo_db (token_of ''a1'') ''pic2'')) ''a1'' ! 0 =
     new_photo ''http://img/1'' ''pic1'' False \<and>
   photos_of (snd (set_main_photo demo_db (token_of ''a1'') ''pic2'')) ''a1'' ! 1 =
     new_photo ''http://img/2'' ''pic2'' True"
    by (simp add: demo_find_pic2(3) new_photo_def)
  from 1 2 3 4 demo_auth(2) demo_photos(2) demo_find_pic2(1) show ?thesis by blast
qed

section \<open>Swipes and matches\<close>

lemma update_first_map_key:
  "(\<And>x. k (f x) = k x) \<Longrightarrow> map k (update_first P f xs) = map k xs"
  by (induction xs) auto

lemma update_first_filter_same:
  "(\<And>x. P x \<Longrightarrow> P (f x)) \<Longrightarrow>
   filter P (update_first P f xs) = (case filter P xs of [] \<Rightarrow> [] | y # ys \<Rightarrow> f y # ys)"
  by (induction xs) auto

lemma update_first_filter_other:
  "(\<And>x. P x \<Longrightarrow> \<not> Q x \<and> \<not> Q (f x)) \<Longrightarrow> filter Q (update_first P f xs) = filter Q xs"
  by (induction xs) auto

lemma distinct_key_filter:
  "distinct (map k xs) \<Longrightarrow> length (filter (\<lambda>x. k x = v) xs) \<le> 1"
proof (induction xs)
  case Nil
  then show ?case by simp
next
  case (Cons x xs)
  then have "k x = v \<Longrightarrow> filter (\<lambda>x. k x = v) xs = []"
    by (auto simp: filter_empty_conv image_iff)
  with Cons show ?case by (cases "k x = v") auto
qed

lemma record_swipe_unique:
  assumes "distinct (map (\<lambda>w. (s_swiper w, s_swiped w)) ws)"
  shows "distinct (map (\<lambda>w. (s_swiper w, s_swiped w)) (record_swipe a b act now ws))"
proof (cases "find (\<lambda>w. s_swiper w = a \<and> s_swiped w = b) ws")
  case None
  then have "\<forall>w \<in> set ws. \<not> (s_swiper w = a \<and> s_swiped w = b)"
    by (simp add: find_None_iff)
  with assms None show ?thesis
    by (auto simp: record_swipe_def)
next
  case (Some w)
  then show ?thesis
    using assms by (simp add: record_swipe_def update_first_map_key)
qed

lemma record_swipe_pair:
  assumes "length (filter (\<lambda>w. s_swiper w = a \<and> s_swiped w = b) ws) \<le> 1"
  shows "\<exists>w. filter (\<lambda>w. s_swiper w = a \<and> s_swiped w = b) (record_swipe a b act now ws) = [w]
             \<and> s_action w = act \<and> s_swiper w = a \<and> s_swiped w = b"
proof (cases "find (\<lambda>w. s_swiper w = a \<and> s_swiped w = b) ws")
  case None
  then have "filter (\<lambda>w. s_swiper w = a \<and> s_swiped w = b) ws = []"
    by (simp add: find_None_iff filter_empty_conv)
  with None show ?thesis by (simp add: record_swipe_def)
next
  case (Some w0)
  then have "filter (\<lambda>w. s_swiper w = a \<and> s_swiped w = b) ws \<noteq> []"
    by (auto simp: filter_empty_conv dest: find_Some_mem)
  with assms obtain y where y: "filter (\<lambda>w. s_swiper w = a \<and> s_swiped w = b) ws = [y]"
    by (cases "filter (\<lambda>w. s_swiper w = a \<and> s_swiped w = b) ws") auto
  then have "y \<in> set (filter (\<lambda>w. s_swiper w = a \<and> s_swiped w = b) ws)" by simp
  then have yk: "s_swiper y = a \<and> s_swiped y = b" by simp
  have "filter (\<lambda>w. s_swiper w = a \<and> s_swiped w = b)
          (update_first (\<lambda>w. s_swiper w = a \<and> s_swiped w = b)
             (\<lambda>w. w\<lparr>s_action := act, s_createdAt := now\<rparr>) ws)
        = [y\<lparr>s_action := act, s_createdAt := now\<rparr>]"
    by (subst update_first_filter_same) (simp_all add: y)
  with Some yk show ?thesis by (simp add: record_swipe_def)
qed

lemma record_swipe_other:
  assumes "(a', b') \<noteq> (a, b)"
  shows "filter (\<lambda>w. s_swiper w = a' \<and> s_swiped w = b' \<and> Q (s_action w)) (record_swipe a b act now ws)
         = filter (\<lambda>w. s_swiper w = a' \<and> s_swiped w = b' \<and> Q (s_action w)) ws"
proof (cases "find (\<lambda>w. s_swiper w = a \<and> s_swiped w = b) ws")
  case None
  with assms show ?thesis by (auto simp: record_swipe_def)
next
  case (Some w)
  have "filter (\<lambda>w. s_swiper w = a' \<and> s_swiped w = b' \<and> Q (s_action w))
          (update_first (\<lambda>w. s_swiper w = a \<and> s_swiped w = b)
             (\<lambda>w. w\<lparr>s_action := act, s_createdAt := now\<rparr>) ws)
        = filter (\<lambda>w. s_swiper w = a' \<and> s_swiped w = b' \<and> Q (s_action w)) ws"
    by (rule update_first_filter_other) (use assms in auto)
  with Some show ?thesis by (simp add: record_swipe_def)
qed

text \<open>What an accepted swipe does.\<close>

lemma swipe_handler_accepted:
  assumes "auth s a = Inr A" "findById_user s B = Some tu" "A \<noteq> B" "B \<noteq> []"
    and "act \<in> set [''like'', ''pass'', ''superlike'']"
  shows "swipe_handler s a (Some B) (Some act) now fresh = swipe_effect s A tu act now fresh"
  using assms unfolding swipe_handler_def by auto

lemma swipe_handler_cases:
  "snd (swipe_handler s a t act now fresh) = s \<or>
   (\<exists>A tu c. findById_user s (u_id tu) = Some tu \<and>
      swipe_handler s a t act now fresh = swipe_effect s A tu c now fresh)"
  unfolding swipe_handler_def
  by (auto split: sum.splits option.splits dest: findById_user_mem)

lemma match_check_users: "users (snd (match_check s A tu now fresh)) = users s"
  unfolding match_check_def by (auto split: option.splits simp: Let_def)

lemma match_check_swipes: "swipes (snd (match_check s A tu now fresh)) = swipes s"
  unfolding match_check_def by (auto split: option.splits simp: Let_def)

lemma swipe_effect_users: "users (snd (swipe_effect s A tu act now fresh)) = users s"
  unfolding swipe_effect_def by (simp add: Let_def match_check_users)

lemma swipe_effect_swipes:
  "swipes (snd (swipe_effect s A tu act now fresh)) = record_swipe A (u_id tu) act now (swipes s)"
  unfolding swipe_effect_def by (simp add: Let_def match_check_swipes)

lemma swipe_handler_users: "users (snd (swipe_handler s a t act now fresh)) = users s"
  using swipe_handler_cases[of s a t act now fresh] by (auto simp: swipe_effect_users)

lemma auth_users: "users s' = users s \<Longrightarrow> auth s' a = auth s a"
  by (auto simp: auth_def findById_user_def split: authz.splits option.splits)

lemma findById_users: "users s' = users s \<Longrightarrow> findById_user s' i = findById_user s i"
  by (simp add: findById_user_def)

lemma swipes_unique_preserved:
  "swipes_unique s \<Longrightarrow> swipes_unique (snd (swipe_handler s a t act now fresh))"
  using swipe_handler_cases[of s a t act now fresh]
  by (auto simp: swipes_unique_def swipe_effect_swipes record_swipe_unique)


lemma find_as_filter: "find P xs = (case filter P xs of [] \<Rightarrow> None | y # ys \<Rightarrow> Some y)"
  by (induction xs) auto

lemma swipes_unique_pair: "swipes_unique s \<Longrightarrow> length (swipes_of s a b) \<le> 1"
proof -
  assume "swipes_unique s"
  then have "length (filter (\<lambda>w. (s_swiper w, s_swiped w) = (a, b)) (swipes s)) \<le> 1"
    unfolding swipes_unique_def by (rule distinct_key_filter)
  then show ?thesis by (simp add: swipes_of_def)
qed

text \<open>
  C3. For a user A and an existing other user B, with the unique index on the swipes holding
  before: swiping pass and then like on B leaves exactly one swipe record for the ordered
  pair (A, B), and its action is like. After the first swipe there is exactly one record as
  well, and the unique index holds after each of the two swipes, so no second record for
  the pair is created.
\<close>

theorem swipe_last_write_wins:
  assumes "auth s a = Inr A" and "findById_user s B = Some tu" and "A \<noteq> B" and "B \<noteq> []"
    and "swipes_unique s"
  shows "(\<exists>w. swipes_of
               (snd (swipe_handler (snd (swipe_handler s a (Some B) (Some ''pass'') now1 f1))
                       a (Some B) (Some ''like'') now2 f2)) A B = [w]
             \<and> s_action w = ''like'') \<and>
         length (swipes_of (snd (swipe_handler s a (Some B) (Some ''pass'') now1 f1)) A B) = 1 \<and>
         swipes_unique (snd (swipe_handler s a (Some B) (Some ''pass'') now1 f1)) \<and>
         swipes_unique
           (snd (swipe_handler (snd (swipe_handler s a (Some B) (Some ''pass'') now1 f1))
                   a (Some B) (Some ''like'') now2 f2))"
proof -
  let ?s1 = "snd (swipe_handler s a (Some B) (Some ''pass'') now1 f1)"
  let ?s2 = "snd (swipe_handler ?s1 a (Some B) (Some ''like'') now2 f2)"
  from assms(2) have idB: "u_id tu = B" by (simp add: findById_user_mem)
  have u1: "users ?s1 = users s" by (rule swipe_handler_users)
  have e1: "swipes ?s1 = record_swipe A B ''pass'' now1 (swipes s)"
    using swipe_handler_accepted[OF assms(1-4), of "''pass''" now1 f1] idB
    by (simp add: swipe_effect_swipes)
  have a1: "auth ?s1 a = Inr A" using auth_users[OF u1] assms(1) by simp
  have b1: "findById_user ?s1 B = Some tu" using findById_users[OF u1] assms(2) by simp
  have e2: "swipes ?s2 = record_swipe A B ''like'' now2 (swipes ?s1)"
    using swipe_handler_accepted[OF a1 b1 assms(3,4), of "''like''" now2 f2] idB
    by (simp add: swipe_effect_swipes)
  from swipes_unique_pair[OF assms(5), of A B]
  obtain w1 where w1: "swipes_of ?s1 A B = [w1]"
    unfolding swipes_of_def e1 using record_swipe_pair[of A B "swipes s" "''pass''" now1]
    by (auto simp: swipes_of_def)
  then have "length (filter (\<lambda>w. s_swiper w = A \<and> s_swiped w = B) (swipes ?s1)) \<le> 1"
    by (simp add: swipes_of_def)
  from record_swipe_pair[OF this, of "''like''" now2]
  have "\<exists>w. swipes_of ?s2 A B = [w] \<and> s_action w = ''like''"
    unfolding swipes_of_def e2 by blast
  moreover have "length (swipes_of ?s1 A B) = 1" using w1 by simp
  moreover have "swipes_unique ?s1" by (rule swipes_unique_preserved[OF assms(5)])
  moreover from this have "swipes_unique ?s2" by (rule swipes_unique_preserved)
  ultimately show ?thesis by blast
qed


lemma match_check_reciprocal:
  assumes "list_ex (\<lambda>w. s_swiper w = u_id tu \<and> s_swiped w = A \<and> is_like (s_action w)) (swipes s1)"
    and "findById_user s1 A = Some au"
  shows "match_check s1 A tu now fresh =
     (case filter (active_between A (u_id tu)) (matches s1) of
        [] \<Rightarrow> (swipe_response True (Some fresh),
               s1\<lparr>matches := matches s1 @ [new_match fresh A (u_id tu) now],
                  notifications := notifications s1 @
                        [match_notification A (u_id tu) (u_name tu) fresh,
                         match_notification (u_id tu) A (u_name au) fresh]\<rparr>)
      | m # ms \<Rightarrow> (swipe_response True (Some (m_id m)), s1))"
proof -
  from assms(1) obtain r where
    "find (\<lambda>w. s_swiper w = u_id tu \<and> s_swiped w = A \<and> is_like (s_action w)) (swipes s1) = Some r"
    by (cases "find (\<lambda>w. s_swiper w = u_id tu \<and> s_swiped w = A \<and> is_like (s_action w)) (swipes s1)")
       (auto simp: find_None_iff list_ex_iff)
  moreover have "findById_user (s1\<lparr>matches := ms\<rparr>) A = Some au" for ms
    using assms(2) by (simp add: findById_user_def)
  ultimately show ?thesis
    unfolding match_check_def
    by (simp add: Let_def find_as_filter[of "active_between A (u_id tu)"] split: list.splits)
qed


lemma list_ex_filter: "list_ex P xs \<longleftrightarrow> filter P xs \<noteq> []"
  by (induction xs) auto

lemma already_liked_after_record:
  assumes "already_liked s B A" and "A \<noteq> B"
  shows "list_ex (\<lambda>w. s_swiper w = B \<and> s_swiped w = A \<and> is_like (s_action w))
           (record_swipe A B act now (swipes s))"
proof -
  have "filter (\<lambda>w. s_swiper w = B \<and> s_swiped w = A \<and> is_like (s_action w))
          (record_swipe A B act now (swipes s))
        = filter (\<lambda>w. s_swiper w = B \<and> s_swiped w = A \<and> is_like (s_action w)) (swipes s)"
    by (rule record_swipe_other) (use assms(2) in simp)
  with assms(1) show ?thesis
    unfolding already_liked_def list_ex_filter by simp
qed

lemma swipe_reciprocal_like:
  assumes "auth s a = Inr A" and "findById_user s A = Some au" and "findById_user s B = Some tu"
    and "A \<noteq> B" and "B \<noteq> []" and "is_like act" and "already_liked s B A"
  shows "swipe_handler s a (Some B) (Some act) now fresh =
     (case active_matches s A B of
        [] \<Rightarrow> (swipe_response True (Some fresh),
               s\<lparr>swipes := record_swipe A B act now (swipes s),
                 matches := matches s @ [new_match fresh A B now],
                 notifications := notifications s @
                        [match_notification A B (u_name tu) fresh,
                         match_notification B A (u_name au) fresh]\<rparr>)
      | m # ms \<Rightarrow> (swipe_response True (Some (m_id m)),
                    s\<lparr>swipes := record_swipe A B act now (swipes s)\<rparr>))"
proof -
  from assms(3) have idB: "u_id tu = B" by (simp add: findById_user_mem)
  from assms(6) have v: "act \<in> set [''like'', ''pass'', ''superlike'']"
    by (auto simp: is_like_def)
  let ?s1 = "s\<lparr>swipes := record_swipe A B act now (swipes s)\<rparr>"
  have r: "list_ex (\<lambda>w. s_swiper w = u_id tu \<and> s_swiped w = A \<and> is_like (s_action w))
             (swipes ?s1)"
    using already_liked_after_record[OF assms(7,4), of act now] idB by simp
  have f: "findById_user ?s1 A = Some au"
    using assms(2) by (simp add: findById_user_def)
  have "swipe_handler s a (Some B) (Some act) now fresh = match_check ?s1 A tu now fresh"
    using swipe_handler_accepted[OF assms(1,3,4,5) v, of now fresh] assms(6) idB
    by (simp add: swipe_effect_def Let_def)
  also note match_check_reciprocal[OF r f, of now fresh]
  finally show ?thesis
    by (simp add: idB active_matches_def split: list.splits)
qed


subsection \<open>The example run: Bob likes Alice, then Alice likes Bob\<close>

lemma demo_find:
  "findById_user demo_db ''a1'' = Some alice"
  "findById_user demo_db ''b2'' = Some bob"
  "findById_user demo_db ''c3'' = Some carol"
  by (simp_all add: findById_user_def demo_db_def alice_def bob_def carol_def mk_user_def)

lemma demo_fields:
  "swipes demo_db = []" "matches demo_db = []" "notifications demo_db = []"
  "messages demo_db = []" "confessions demo_db = []"
  by (simp_all add: demo_db_def)

lemma demo_names: "u_name alice = ''Alice''" "u_name bob = ''Bob''"
  "u_id alice = ''a1''" "u_id bob = ''b2''"
  by (simp_all add: alice_def bob_def mk_user_def)

lemma liked_db_eq:
  "liked_db = demo_db\<lparr>swipes := [\<lparr>s_swiper = ''b2'', s_swiped = ''a1'', s_action = ''like'',
                                     s_swipedAt = 1000, s_createdAt = 1000\<rparr>]\<rparr>"
proof -
  have "swipe_handler demo_db (token_of ''b2'') (Some ''a1'') (Some ''like'') 1000 ''m0''
          = swipe_effect demo_db ''b2'' alice ''like'' 1000 ''m0''"
    by (rule swipe_handler_accepted) (simp_all add: demo_auth demo_find)
  then show ?thesis
    by (simp add: liked_db_def swipe_effect_def match_check_def Let_def is_like_def demo_fields
          demo_names record_swipe_def)
qed

lemma liked_db_facts:
  "auth liked_db (token_of ''a1'') = Inr ''a1''"
  "findById_user liked_db ''a1'' = Some alice"
  "findById_user liked_db ''b2'' = Some bob"
  "already_liked liked_db ''b2'' ''a1''"
  "active_matches liked_db ''a1'' ''b2'' = []"
  "swipes_unique liked_db"
proof -
  have u: "users liked_db = users demo_db" by (simp add: liked_db_eq)
  show "auth liked_db (token_of ''a1'') = Inr ''a1''"
    using auth_users[OF u] by (simp add: demo_auth)
  show "findById_user liked_db ''a1'' = Some alice" "findById_user liked_db ''b2'' = Some bob"
    using findById_users[OF u] by (simp_all add: demo_find)
  show "already_liked liked_db ''b2'' ''a1''"
    by (simp add: liked_db_eq already_liked_def is_like_def)
  show "active_matches liked_db ''a1'' ''b2'' = []"
    by (simp add: liked_db_eq active_matches_def demo_fields)
  show "swipes_unique liked_db"
    by (simp add: liked_db_eq swipes_unique_def)
qed

lemma matched_db_eq:
  "matched_db = liked_db\<lparr>swipes := record_swipe ''a1'' ''b2'' ''like'' 2000 (swipes liked_db),
       matches := matches liked_db @ [new_match ''m1'' ''a1'' ''b2'' 2000],
       notifications := notifications liked_db @
         [match_notification ''a1'' ''b2'' ''Bob'' ''m1'',
          match_notification ''b2'' ''a1'' ''Alice'' ''m1'']\<rparr>"
  unfolding matched_db_def
  by (subst swipe_reciprocal_like[OF liked_db_facts(1,2,3) _ _ _ liked_db_facts(4)])
     (simp_all add: is_like_def liked_db_facts demo_names)



theorem swipe_last_write_wins_witness:
  "auth demo_db (token_of ''a1'') = Inr ''a1'' \<and> findById_user demo_db ''b2'' = Some bob \<and>
   swipes_unique demo_db \<and>
   (\<exists>w. swipes_of
          (snd (swipe_handler
                  (snd (swipe_handler demo_db (token_of ''a1'') (Some ''b2'') (Some ''pass'') 10 ''m0''))
                  (token_of ''a1'') (Some ''b2'') (Some ''like'') 20 ''m1'')) ''a1'' ''b2'' = [w]
        \<and> s_action w = ''like'')"
proof -
  have u: "swipes_unique demo_db" by (simp add: swipes_unique_def demo_fields)
  have n: "''a1'' \<noteq> ''b2''" "''b2'' \<noteq> []" by simp_all
  from swipe_last_write_wins[OF demo_auth(1) demo_find(2) n u, of 10 "''m0''" 20 "''m1''"]
  show ?thesis using u by (simp add: demo_auth demo_find)
qed

section \<open>Chat: a caller outside the match\<close>

lemma trim_Nil: "trim [] = []"
  by (simp add: trim_def)

text \<open>
  C6, as amended. An authenticated caller who is neither user1 nor user2 of the match sends
  a message: the store is left as it was (no message record, the match with its cached last
  message and last activity untouched). The answer is 404 when the content is a string
  that is not blank after trimming. A content that is missing, falsy or a blank string is
  refused with 400 before the membership is looked at, and a truthy content that is not a
  string makes the first test throw, which is answered with 500.
\<close>

theorem send_message_non_participant:
  assumes "auth s a = Inr u"
    and "\<forall>m \<in> set (matches s). m_id m = matchId \<longrightarrow> m_user1 m \<noteq> u \<and> m_user2 m \<noteq> u"
  shows "snd (send_message s a matchId content type replyTo now fresh) = s \<and>
         messages (snd (send_message s a matchId content type replyTo now fresh)) = messages s \<and>
         matches (snd (send_message s a matchId content type replyTo now fresh)) = matches s \<and>
         fst (send_message s a matchId content type replyTo now fresh) =
           (case content of
              Absent \<Rightarrow> Json 400 False (Some ''Message content is required'') NoData
            | Falsy \<Rightarrow> Json 400 False (Some ''Message content is required'') NoData
            | Truthy \<Rightarrow> Json 500 False (Some ''Server error'') NoData
            | Str c \<Rightarrow>
                if trim c = [] then Json 400 False (Some ''Message content is required'') NoData
                else Json 404 False (Some ''Match not found'') NoData)"
proof -
  from assms(2) have "find (participant_match matchId u) (matches s) = None"
    by (auto simp: find_None_iff participant_match_def)
  with assms(1) show ?thesis
    unfolding send_message_def by (cases content) (auto simp: trim_Nil)
qed

lemma matched_db_matches: "matches matched_db = [new_match ''m1'' ''a1'' ''b2'' 2000]"
  by (simp add: matched_db_eq liked_db_eq demo_fields)

lemma matched_db_auth_carol: "auth matched_db (token_of ''c3'') = Inr ''c3''"
proof -
  have "users matched_db = users demo_db" by (simp add: matched_db_eq liked_db_eq)
  from auth_users[OF this] show ?thesis by (simp add: demo_auth)
qed

text \<open>The code units of \<^verbatim>\<open>hi\<close>, and a content that is a no-break space between two
  spaces.\<close>

lemma trim_examples:
  "trim [0x68, 0x69] = [0x68, 0x69]"
  "trim [0x20, 0xA0, 0x20] = []"
  by (simp_all add: trim_def js_space_def)

theorem send_message_non_participant_witness:
  "auth matched_db (token_of ''c3'') = Inr ''c3'' \<and>
   matches matched_db = [new_match ''m1'' ''a1'' ''b2'' 2000] \<and>
   m_user1 (new_match ''m1'' ''a1'' ''b2'' 2000) \<noteq> ''c3'' \<and>
   m_user2 (new_match ''m1'' ''a1'' ''b2'' 2000) \<noteq> ''c3'' \<and>
   send_message matched_db (token_of ''c3'') ''m1'' (Str [0x68, 0x69]) None None 5000 ''g1''
     = (Json 404 False (Some ''Match not found'') NoData, matched_db) \<and>
   send_message matched_db (token_of ''c3'') ''m1'' (Str [0x20, 0xA0, 0x20]) None None 5000 ''g1''
     = (Json 400 False (Some ''Message content is required'') NoData, matched_db) \<and>
   send_message matched_db (token_of ''c3'') ''m1'' Truthy None None 5000 ''g1''
     = (Json 500 False (Some ''Server error'') NoData, matched_db)"
proof -
  have h: "\<forall>m \<in> set (matches matched_db).
      m_id m = ''m1'' \<longrightarrow> m_user1 m \<noteq> ''c3'' \<and> m_user2 m \<noteq> ''c3''"
    by (simp add: matched_db_matches new_match_def)
  note t = send_message_non_participant[OF matched_db_auth_carol h]
  have 1: "send_message matched_db (token_of ''c3'') ''m1'' (Str [0x68, 0x69]) None None 5000 ''g1''
     = (Json 404 False (Some ''Match not found'') NoData, matched_db)"
    using t[of "Str [0x68, 0x69]" None None 5000 "''g1''"]
    by (simp add: trim_examples prod_eq_iff)
  have 2: "send_message matched_db (token_of ''c3'') ''m1'' (Str [0x20, 0xA0, 0x20]) None None 5000 ''g1''
     = (Json 400 False (Some ''Message content is required'') NoData, matched_db)"
    using t[of "Str [0x20, 0xA0, 0x20]" None None 5000 "''g1''"]
    by (simp add: trim_examples prod_eq_iff)
  have 3: "send_message matched_db (token_of ''c3'') ''m1'' Truthy None None 5000 ''g1''
     = (Json 500 False (Some ''Server error'') NoData, matched_db)"
    using t[of Truthy None None 5000 "''g1''"]
    by (simp add: prod_eq_iff)
  from 1 2 3 show ?thesis
    by (simp add: matched_db_auth_carol matched_db_matches new_match_def)
qed

text \<open>
  C6 as stated fails for an empty message: Carol, who is not in the match of Alice and Bob,
  gets status 400, not 404.
\<close>

theorem send_message_counterexample:
  "auth matched_db (token_of ''c3'') = Inr ''c3'' \<and>
   m_user1 (new_match ''m1'' ''a1'' ''b2'' 2000) \<noteq> ''c3'' \<and>
   m_user2 (new_match ''m1'' ''a1'' ''b2'' 2000) \<noteq> ''c3'' \<and>
   matches matched_db = [new_match ''m1'' ''a1'' ''b2'' 2000] \<and>
   status (fst (send_message matched_db (token_of ''c3'') ''m1'' (Str []) None None 5000 ''g1''))
     = 400"
  by (simp add: matched_db_auth_carol matched_db_matches new_match_def send_message_def)

section \<open>Confessions: college scope\<close>

lemma list_query_scope:
  "c \<in> set (list_query s college cat skip limit) \<Longrightarrow>
   c \<in> set (confessions s) \<and> c_college c = college \<and> \<not> c_isReported c"
proof -
  let ?hits = "rev (sort_key c_createdAt
               (filter (\<lambda>c. c_college c = college \<and> \<not> c_isReported c
                              \<and> (cat = ''all'' \<or> c_category c = cat)) (confessions s)))"
  assume "c \<in> set (list_query s college cat skip limit)"
  then have "c \<in> set (drop skip ?hits) \<or> c \<in> set (take limit (drop skip ?hits))"
    unfolding list_query_def Let_def by (simp split: if_splits)
  then have "c \<in> set (drop skip ?hits)"
    by (blast dest: in_set_takeD)
  then have "c \<in> set ?hits"
    by (rule in_set_dropD)
  then show ?thesis by simp
qed

text \<open>
  C5. A caller whose token names an existing user lists confessions: the answer is built
  from documents of the store that all carry the caller's college (or the request fails
  with 500 and no data). Fetching one confession whose college differs from the caller's is
  answered with 403 and no data. Neither request changes the store.
\<close>

theorem confession_college_scope:
  assumes "auth_decode a = Inr p" and "map_of p ''userId'' = Some uid"
    and "findById_user s uid = Some caller"
  shows "(\<exists>cs. (\<forall>c \<in> set cs. c \<in> set (confessions s) \<and> c_college c = u_college caller) \<and>
               (get_confessions s a category page limit =
                  (Json 200 True None
                     (ConfessionsData (map (format_confession (Some uid)) cs) (length cs = limit)),
                   s)
                \<or> get_confessions s a category page limit =
                  (Json 500 False (Some ''Server error'') NoData, s))) \<and>
         (\<forall>c. findById_confession s confessionId = Some c \<and> c_college c \<noteq> u_college caller \<longrightarrow>
              get_confession s a confessionId =
                (Json 403 False (Some ''Access denied'') NoData, s))"
proof (intro conjI allI impI)
  let ?cat = "case category of None \<Rightarrow> ''all'' | Some c \<Rightarrow> c"
  let ?cs = "list_query s (u_college caller) ?cat ((page - 1) * limit) limit"
  have "\<forall>c \<in> set ?cs. c \<in> set (confessions s) \<and> c_college c = u_college caller"
    using list_query_scope by blast
  moreover have "get_confessions s a category page limit =
                  (Json 200 True None
                     (ConfessionsData (map (format_confession (Some uid)) ?cs) (length ?cs = limit)),
                   s)
                \<or> get_confessions s a category page limit =
                  (Json 500 False (Some ''Server error'') NoData, s)"
    using assms unfolding get_confessions_def by (simp add: Let_def)
  ultimately show "\<exists>cs. (\<forall>c \<in> set cs. c \<in> set (confessions s) \<and> c_college c = u_college caller) \<and>
               (get_confessions s a category page limit =
                  (Json 200 True None
                     (ConfessionsData (map (format_confession (Some uid)) cs) (length cs = limit)),
                   s)
                \<or> get_confessions s a category page limit =
                  (Json 500 False (Some ''Server error'') NoData, s))"
    by blast
next
  fix c
  assume "findById_confession s confessionId = Some c \<and> c_college c \<noteq> u_college caller"
  with assms show "get_confession s a confessionId =
                (Json 403 False (Some ''Access denied'') NoData, s)"
    unfolding get_confession_def by simp
qed


lemma confession_db_facts:
  "auth_decode (token_of ''a1'') = Inr (generateToken ''a1'')"
  "map_of (generateToken ''a1'') ''userId'' = Some ''a1''"
  "findById_user confession_db ''a1'' = Some alice"
  "findById_confession confession_db ''x1'' = Some conf1"
  "findById_confession confession_db ''x2'' = Some conf2"
  "u_college alice = ''ABC''" "c_college conf2 = ''XYZ''"
  by (simp_all add: auth_decode_def token_of_def generateToken_def findById_user_def
        findById_confession_def confession_db_def demo_db_def alice_def mk_user_def conf1_def
        conf2_def)

theorem confession_college_scope_witness:
  "auth_decode (token_of ''a1'') = Inr (generateToken ''a1'') \<and>
   map_of (generateToken ''a1'') ''userId'' = Some ''a1'' \<and>
   findById_user confession_db ''a1'' = Some alice \<and>
   findById_confession confession_db ''x2'' = Some conf2 \<and>
   c_college conf2 \<noteq> u_college alice \<and>
   get_confession confession_db (token_of ''a1'') ''x2'' =
     (Json 403 False (Some ''Access denied'') NoData, confession_db) \<and>
   (\<exists>cs. (\<forall>c \<in> set cs. c \<in> set (confessions confession_db) \<and> c_college c = ''ABC'') \<and>
      fst (get_confessions confession_db (token_of ''a1'') None 1 20) =
        Json 200 True None (ConfessionsData (map (format_confession (Some ''a1'')) cs)
          (length cs = 20)))"
proof -
  note t = confession_college_scope[OF confession_db_facts(1,2,3), of None 1 20 "''x2''"]
  have ne: "c_college conf2 \<noteq> u_college alice" by (simp add: confession_db_facts)
  have ok: "status (fst (get_confessions confession_db (token_of ''a1'') None 1 20)) = 200"
    by (simp add: get_confessions_def confession_db_facts Let_def)
  from t ne confession_db_facts(5)
  have 1: "get_confession confession_db (token_of ''a1'') ''x2'' =
     (Json 403 False (Some ''Access denied'') NoData, confession_db)" by blast
  from t obtain cs where
    cs: "\<forall>c \<in> set cs. c \<in> set (confessions confession_db) \<and> c_college c = u_college alice"
    and r: "get_confessions confession_db (token_of ''a1'') None 1 20 =
                  (Json 200 True None
                     (ConfessionsData (map (format_confession (Some ''a1'')) cs) (length cs = 20)),
                   confession_db)
            \<or> get_confessions confession_db (token_of ''a1'') None 1 20 =
                  (Json 500 False (Some ''Server error'') NoData, confession_db)"
    by blast
  from r ok have "fst (get_confessions confession_db (token_of ''a1'') None 1 20) =
        Json 200 True None (ConfessionsData (map (format_confession (Some ''a1'')) cs)
          (length cs = 20))" by auto
  with cs have 2: "\<exists>cs. (\<forall>c \<in> set cs. c \<in> set (confessions confession_db) \<and> c_college c = ''ABC'') \<and>
      fst (get_confessions confession_db (token_of ''a1'') None 1 20) =
        Json 200 True None (ConfessionsData (map (format_confession (Some ''a1'')) cs)
          (length cs = 20))"
    unfolding confession_db_facts(6) by blast
  from 1 2 ne show ?thesis by (simp add: confession_db_facts(1-5))
qed

section \<open>Confessions: the reaction toggle\<close>

lemma bump_count:
  "t \<in> set reaction_types \<Longrightarrow>
   count_of t (bump r c) = count_of t c + (if r_type r = t then 1 else 0)"
  by (auto simp: bump_def count_of_def reaction_types_def)

lemma fold_bump_count:
  "t \<in> set reaction_types \<Longrightarrow>
   count_of t (fold bump rs c) = count_of t c + length (filter (\<lambda>r. r_type r = t) rs)"
  by (induction rs arbitrary: c) (simp_all add: bump_count)

lemma reactionCounts_count:
  "t \<in> set reaction_types \<Longrightarrow>
   count_of t (reactionCounts rs) = length (filter (\<lambda>r. r_type r = t) rs)"
  unfolding reactionCounts_def by (subst fold_bump_count) (auto simp: count_of_def)

lemma filter_splice1_other:
  "i < length xs \<Longrightarrow> \<not> Q (xs ! i) \<Longrightarrow> filter Q (splice1 i xs) = filter Q xs"
proof (induction xs arbitrary: i)
  case Nil
  then show ?case by simp
next
  case (Cons x xs)
  then show ?case by (cases i) (auto simp: splice1_def)
qed

lemma distinct_splice1_plain: "distinct ys \<Longrightarrow> distinct (splice1 i ys)"
proof (induction ys arbitrary: i)
  case Nil
  then show ?case by (simp add: splice1_def)
next
  case (Cons y ys)
  show ?case
  proof (cases i)
    case 0
    with Cons.prems show ?thesis by (simp add: splice1_def)
  next
    case (Suc j)
    from Cons.prems have "y \<notin> set (take j ys)" "y \<notin> set (drop (Suc j) ys)"
      by (auto dest: in_set_takeD in_set_dropD)
    moreover from Cons have "distinct (splice1 j ys)" by simp
    ultimately show ?thesis using Suc by (simp add: splice1_def)
  qed
qed

lemma distinct_splice1: "distinct (map k xs) \<Longrightarrow> distinct (map k (splice1 i xs))"
  using distinct_splice1_plain[of "map k xs" i]
  by (simp add: splice1_def take_map drop_map)

lemma reaction_eqI:
  "r_userId r = u \<Longrightarrow> r_type r = t \<Longrightarrow> (r::reaction) = \<lparr>r_userId = u, r_type = t\<rparr>"
  by (cases r) simp

lemma toggle_keeps_one_each:
  assumes "one_reaction_each rs"
  shows "one_reaction_each (toggle_reaction u t rs)"
proof (cases "findIndex (\<lambda>r. r_userId r = u \<and> r_type r = t) rs")
  case None
  from assms have "distinct (map r_userId (filter (\<lambda>r. r_userId r \<noteq> u) rs))"
    unfolding one_reaction_each_def by (rule distinct_map_filter)
  with None show ?thesis
    by (auto simp: toggle_reaction_def one_reaction_each_def)
next
  case (Some i)
  with assms show ?thesis
    by (simp add: toggle_reaction_def one_reaction_each_def distinct_splice1)
qed

lemma toggle_off:
  assumes "one_reaction_each rs" and "\<lparr>r_userId = u, r_type = t\<rparr> \<in> set rs"
  shows "filter (\<lambda>r. r_userId r = u) (toggle_reaction u t rs) = []"
    and "length (filter (\<lambda>r. r_type r = t) (toggle_reaction u t rs)) + 1 =
         length (filter (\<lambda>r. r_type r = t) rs)"
proof -
  from assms(2) obtain i where i: "findIndex (\<lambda>r. r_userId r = u \<and> r_type r = t) rs = Some i"
    by (cases "findIndex (\<lambda>r. r_userId r = u \<and> r_type r = t) rs")
       (auto simp: findIndex_None)
  from findIndex_Some[OF i] have il: "i < length rs" and iu: "r_userId (rs ! i) = u"
    and it: "r_type (rs ! i) = t" by simp_all
  have tg: "toggle_reaction u t rs = splice1 i rs" using i by (simp add: toggle_reaction_def)
  from assms(1) have "length (filter (\<lambda>r. r_userId r = u) rs) \<le> 1"
    unfolding one_reaction_each_def by (rule distinct_key_filter)
  with filter_splice1[OF il, of "\<lambda>r. r_userId r = u"] iu
  show "filter (\<lambda>r. r_userId r = u) (toggle_reaction u t rs) = []"
    unfolding tg by simp
  have "rs ! i \<in> set (filter (\<lambda>r. r_type r = t) rs)" using il it by simp
  then have "0 < length (filter (\<lambda>r. r_type r = t) rs)"
    by (metis length_pos_if_in_set)
  with filter_splice1[OF il, of "\<lambda>r. r_type r = t"] it
  show "length (filter (\<lambda>r. r_type r = t) (toggle_reaction u t rs)) + 1 =
         length (filter (\<lambda>r. r_type r = t) rs)"
    unfolding tg by simp
qed

lemma toggle_on:
  assumes "\<lparr>r_userId = u, r_type = t\<rparr> \<notin> set rs"
  shows "filter (\<lambda>r. r_userId r = u) (toggle_reaction u t rs) = [\<lparr>r_userId = u, r_type = t\<rparr>]"
    and "toggle_reaction u t rs = filter (\<lambda>r. r_userId r \<noteq> u) rs @ [\<lparr>r_userId = u, r_type = t\<rparr>]"
proof -
  have "findIndex (\<lambda>r. r_userId r = u \<and> r_type r = t) rs = None"
    unfolding findIndex_None
  proof (intro ballI notI)
    fix r assume "r \<in> set rs" and "r_userId r = u \<and> r_type r = t"
    then have "\<lparr>r_userId = u, r_type = t\<rparr> \<in> set rs"
      using reaction_eqI[of r u t] by metis
    with assms show False by simp
  qed
  then show "toggle_reaction u t rs = filter (\<lambda>r. r_userId r \<noteq> u) rs @ [\<lparr>r_userId = u, r_type = t\<rparr>]"
    by (simp add: toggle_reaction_def)
  then show "filter (\<lambda>r. r_userId r = u) (toggle_reaction u t rs) = [\<lparr>r_userId = u, r_type = t\<rparr>]"
    by simp
qed

lemma toggle_others:
  assumes "v \<noteq> u"
  shows "filter (\<lambda>r. r_userId r = v) (toggle_reaction u t rs) = filter (\<lambda>r. r_userId r = v) rs"
proof (cases "findIndex (\<lambda>r. r_userId r = u \<and> r_type r = t) rs")
  case None
  have "filter (\<lambda>r. r_userId r = v) (filter (\<lambda>r. r_userId r \<noteq> u) rs) =
        filter (\<lambda>r. r_userId r = v) rs"
    using assms by (induction rs) auto
  with None assms show ?thesis by (simp add: toggle_reaction_def)
next
  case (Some i)
  from findIndex_Some[OF Some] assms
  have "i < length rs" "\<not> r_userId (rs ! i) = v" by auto
  then have "filter (\<lambda>r. r_userId r = v) (splice1 i rs) = filter (\<lambda>r. r_userId r = v) rs"
    by (rule filter_splice1_other)
  with Some show ?thesis by (simp add: toggle_reaction_def)
qed

lemma toggle_twice_count:
  assumes "one_reaction_each rs" and "\<lparr>r_userId = u, r_type = t\<rparr> \<notin> set rs"
  shows "length (filter (\<lambda>r. r_type r = t) (toggle_reaction u t (toggle_reaction u t rs)))
           = length (filter (\<lambda>r. r_type r = t) rs)"
    and "filter (\<lambda>r. r_userId r = u) (toggle_reaction u t (toggle_reaction u t rs)) = []"
proof -
  let ?new = "\<lparr>r_userId = u, r_type = t\<rparr>"
  let ?rs1 = "toggle_reaction u t rs"
  have e: "?rs1 = filter (\<lambda>r. r_userId r \<noteq> u) rs @ [?new]" by (rule toggle_on(2)[OF assms(2)])
  have o: "one_reaction_each ?rs1" by (rule toggle_keeps_one_each[OF assms(1)])
  have m: "?new \<in> set ?rs1" unfolding e by simp
  from toggle_off[OF o m]
  have c: "length (filter (\<lambda>r. r_type r = t) (toggle_reaction u t ?rs1)) + 1 =
           length (filter (\<lambda>r. r_type r = t) ?rs1)"
    and z: "filter (\<lambda>r. r_userId r = u) (toggle_reaction u t ?rs1) = []" by simp_all
  show "filter (\<lambda>r. r_userId r = u) (toggle_reaction u t ?rs1) = []" by (rule z)
  have "\<forall>r \<in> set rs. r_type r = t \<longrightarrow> r_userId r \<noteq> u"
  proof (intro ballI impI)
    fix r assume "r \<in> set rs" "r_type r = t"
    show "r_userId r \<noteq> u"
    proof
      assume "r_userId r = u"
      with \<open>r_type r = t\<close> have "r = ?new" by (intro reaction_eqI)
      with \<open>r \<in> set rs\<close> assms(2) show False by simp
    qed
  qed
  then have "filter (\<lambda>r. r_type r = t) (filter (\<lambda>r. r_userId r \<noteq> u) rs) =
             filter (\<lambda>r. r_type r = t) rs"
    by (induction rs) auto
  then have "length (filter (\<lambda>r. r_type r = t) ?rs1) = length (filter (\<lambda>r. r_type r = t) rs) + 1"
    unfolding e by simp
  with c show "length (filter (\<lambda>r. r_type r = t) (toggle_reaction u t ?rs1))
           = length (filter (\<lambda>r. r_type r = t) rs)" by simp
qed


lemma find_replace_confession:
  "c_id c = j \<Longrightarrow>
   find (\<lambda>c. c_id c = i) (map (\<lambda>d. if c_id d = j then c else d) xs) =
     (if i = j then (if \<exists>d \<in> set xs. c_id d = i then Some c else None)
      else find (\<lambda>c. c_id c = i) xs)"
  by (induction xs) auto

lemma findById_confession_mem:
  "findById_confession s i = Some c \<Longrightarrow> c \<in> set (confessions s) \<and> c_id c = i"
  unfolding findById_confession_def by (drule find_Some_mem) simp

lemma findById_confession_saved:
  assumes "findById_confession s cid = Some c"
  shows "findById_confession (save_confession s (c\<lparr>c_reactions := rs\<rparr>)) cid
           = Some (c\<lparr>c_reactions := rs\<rparr>)"
  using findById_confession_mem[OF assms]
  unfolding findById_confession_def save_confession_def
  by (auto simp: find_replace_confession)

lemma react_accepted:
  assumes "auth_decode a = Inr p" and "map_of p ''userId'' = Some u"
    and "t \<in> set reaction_types" and "findById_confession s cid = Some c"
  shows "snd (react s a cid (Some t)) =
           save_confession s (c\<lparr>c_reactions := toggle_reaction u t (c_reactions c)\<rparr>)"
    and "fst (react s a cid (Some t)) =
           Json 200 True None
             (ReactData (reactionCounts (toggle_reaction u t (c_reactions c)))
                (findIndex (\<lambda>r. r_userId r = u \<and> r_type r = t) (c_reactions c) = None))"
  using assms unfolding react_def by (simp_all add: Let_def)

lemma react_cases:
  "snd (react s a cid ty) = s \<or>
   (\<exists>c u t. c \<in> set (confessions s) \<and>
      snd (react s a cid ty) =
        save_confession s (c\<lparr>c_reactions := toggle_reaction u t (c_reactions c)\<rparr>))"
  unfolding react_def
  by (auto split: sum.splits option.splits simp: Let_def dest: findById_confession_mem)

lemma reactions_ok_react:
  assumes "reactions_ok s"
  shows "reactions_ok (snd (react s a cid ty))"
  using react_cases[of s a cid ty]
proof (elim disjE exE conjE)
  fix c u t
  assume c: "c \<in> set (confessions s)"
    and e: "snd (react s a cid ty) =
        save_confession s (c\<lparr>c_reactions := toggle_reaction u t (c_reactions c)\<rparr>)"
  from assms c have "one_reaction_each (c_reactions c)" by (simp add: reactions_ok_def)
  then have "one_reaction_each (toggle_reaction u t (c_reactions c))"
    by (rule toggle_keeps_one_each)
  with assms show ?thesis
    unfolding e reactions_ok_def save_confession_def by auto
qed (use assms in simp)

lemma holds_iff_member:
  assumes "one_reaction_each rs"
  shows "filter (\<lambda>r. r_userId r = u) rs = [\<lparr>r_userId = u, r_type = t\<rparr>]
           \<longleftrightarrow> \<lparr>r_userId = u, r_type = t\<rparr> \<in> set rs"
proof
  assume "filter (\<lambda>r. r_userId r = u) rs = [\<lparr>r_userId = u, r_type = t\<rparr>]"
  then have "\<lparr>r_userId = u, r_type = t\<rparr> \<in> set (filter (\<lambda>r. r_userId r = u) rs)" by simp
  then show "\<lparr>r_userId = u, r_type = t\<rparr> \<in> set rs" by simp
next
  assume m: "\<lparr>r_userId = u, r_type = t\<rparr> \<in> set rs"
  then have "\<lparr>r_userId = u, r_type = t\<rparr> \<in> set (filter (\<lambda>r. r_userId r = u) rs)" by simp
  moreover from assms have "length (filter (\<lambda>r. r_userId r = u) rs) \<le> 1"
    unfolding one_reaction_each_def by (rule distinct_key_filter)
  ultimately show "filter (\<lambda>r. r_userId r = u) rs = [\<lparr>r_userId = u, r_type = t\<rparr>]"
    by (cases "filter (\<lambda>r. r_userId r = u) rs") auto
qed

text \<open>
  C2. A caller with user id u reacts with a valid type X to an existing confession on which
  every user holds at most one reaction. If u's current reaction is X, it is removed: u
  holds no reaction and the count of X is one less. Otherwise (u holds another type or
  none) u holds exactly the reaction X afterwards; reacting with X once more removes it
  and the count of X is back at its value before the two calls. The reactions of other
  users are untouched, u never holds more than one reaction, and any react request keeps
  the invariant on the whole store.
\<close>

theorem reaction_toggle:
  assumes "auth_decode a = Inr p" and "map_of p ''userId'' = Some u"
    and "X \<in> set reaction_types" and "findById_confession s cid = Some c"
    and "one_reaction_each (c_reactions c)"
  shows "let s1 = snd (react s a cid (Some X)); s2 = snd (react s1 a cid (Some X)) in
         (reactions_of s cid u = [\<lparr>r_userId = u, r_type = X\<rparr>] \<longrightarrow>
            reactions_of s1 cid u = [] \<and>
            count_of X (counts_of s1 cid) + 1 = count_of X (counts_of s cid)) \<and>
         (reactions_of s cid u \<noteq> [\<lparr>r_userId = u, r_type = X\<rparr>] \<longrightarrow>
            reactions_of s1 cid u = [\<lparr>r_userId = u, r_type = X\<rparr>] \<and>
            reactions_of s2 cid u = [] \<and>
            count_of X (counts_of s2 cid) = count_of X (counts_of s cid)) \<and>
         (\<forall>v. v \<noteq> u \<longrightarrow> reactions_of s1 cid v = reactions_of s cid v) \<and>
         length (reactions_of s1 cid u) \<le> 1 \<and>
         (reactions_ok s \<longrightarrow> reactions_ok (snd (react s a' cid' ty')))"
proof -
  let ?rs = "c_reactions c"
  let ?rs1 = "toggle_reaction u X ?rs"
  let ?rs2 = "toggle_reaction u X ?rs1"
  let ?c1 = "c\<lparr>c_reactions := ?rs1\<rparr>"
  let ?s1 = "snd (react s a cid (Some X))"
  let ?s2 = "snd (react ?s1 a cid (Some X))"
  let ?new = "\<lparr>r_userId = u, r_type = X\<rparr>"
  have s1: "?s1 = save_confession s ?c1" by (rule react_accepted(1)[OF assms(1-4)])
  have f1: "findById_confession ?s1 cid = Some ?c1"
    unfolding s1 by (rule findById_confession_saved[OF assms(4)])
  have s2: "?s2 = save_confession ?s1 (?c1\<lparr>c_reactions := ?rs2\<rparr>)"
    using react_accepted(1)[OF assms(1-3) f1] by simp
  have f2: "findById_confession ?s2 cid = Some (?c1\<lparr>c_reactions := ?rs2\<rparr>)"
    unfolding s2 by (rule findById_confession_saved[OF f1])
  have r0: "reactions_of s cid v = filter (\<lambda>r. r_userId r = v) ?rs" for v
    using assms(4) by (simp add: reactions_of_def)
  have r1: "reactions_of ?s1 cid v = filter (\<lambda>r. r_userId r = v) ?rs1" for v
    using f1 by (simp add: reactions_of_def)
  have r2: "reactions_of ?s2 cid v = filter (\<lambda>r. r_userId r = v) ?rs2" for v
    using f2 by (simp add: reactions_of_def)
  have k0: "count_of X (counts_of s cid) = length (filter (\<lambda>r. r_type r = X) ?rs)"
    using assms(4) by (simp add: counts_of_def reactionCounts_count[OF assms(3)])
  have k1: "count_of X (counts_of ?s1 cid) = length (filter (\<lambda>r. r_type r = X) ?rs1)"
    using f1 by (simp add: counts_of_def reactionCounts_count[OF assms(3)])
  have k2: "count_of X (counts_of ?s2 cid) = length (filter (\<lambda>r. r_type r = X) ?rs2)"
    using f2 by (simp add: counts_of_def reactionCounts_count[OF assms(3)])
  have A: "reactions_of s cid u = [?new] \<longrightarrow>
            reactions_of ?s1 cid u = [] \<and>
            count_of X (counts_of ?s1 cid) + 1 = count_of X (counts_of s cid)"
  proof
    assume "reactions_of s cid u = [?new]"
    then have "?new \<in> set ?rs" unfolding r0 holds_iff_member[OF assms(5)] .
    from toggle_off[OF assms(5) this]
    show "reactions_of ?s1 cid u = [] \<and>
            count_of X (counts_of ?s1 cid) + 1 = count_of X (counts_of s cid)"
      unfolding r1 k0 k1 by simp
  qed
  have B: "reactions_of s cid u \<noteq> [?new] \<longrightarrow>
            reactions_of ?s1 cid u = [?new] \<and> reactions_of ?s2 cid u = [] \<and>
            count_of X (counts_of ?s2 cid) = count_of X (counts_of s cid)"
  proof
    assume "reactions_of s cid u \<noteq> [?new]"
    then have n: "?new \<notin> set ?rs" unfolding r0 holds_iff_member[OF assms(5)] .
    from toggle_on(1)[OF n] toggle_twice_count[OF assms(5) n]
    show "reactions_of ?s1 cid u = [?new] \<and> reactions_of ?s2 cid u = [] \<and>
            count_of X (counts_of ?s2 cid) = count_of X (counts_of s cid)"
      unfolding r1 r2 k0 k2 by simp
  qed
  have C: "\<forall>v. v \<noteq> u \<longrightarrow> reactions_of ?s1 cid v = reactions_of s cid v"
    unfolding r0 r1 by (simp add: toggle_others)
  have "one_reaction_each ?rs1" by (rule toggle_keeps_one_each[OF assms(5)])
  then have D: "length (reactions_of ?s1 cid u) \<le> 1"
    unfolding r1 one_reaction_each_def by (rule distinct_key_filter)
  have E: "reactions_ok s \<longrightarrow> reactions_ok (snd (react s a' cid' ty'))"
    by (simp add: reactions_ok_react)
  from A B C D E show ?thesis unfolding Let_def by blast
qed

lemma confession_db_x1:
  "one_reaction_each (c_reactions conf1)"
  "reactions_of confession_db ''x1'' ''a1'' = []"
  "''heart'' \<in> set reaction_types"
  by (simp_all add: one_reaction_each_def conf1_def reactions_of_def confession_db_facts
        reaction_types_def)

theorem reaction_toggle_witness:
  "auth_decode (token_of ''a1'') = Inr (generateToken ''a1'') \<and>
   findById_confession confession_db ''x1'' = Some conf1 \<and>
   one_reaction_each (c_reactions conf1) \<and>
   reactions_of confession_db ''x1'' ''a1'' \<noteq> [\<lparr>r_userId = ''a1'', r_type = ''heart''\<rparr>] \<and>
   reactions_of (snd (react confession_db (token_of ''a1'') ''x1'' (Some ''heart''))) ''x1'' ''a1''
     = [\<lparr>r_userId = ''a1'', r_type = ''heart''\<rparr>] \<and>
   reactions_of
     (snd (react (snd (react confession_db (token_of ''a1'') ''x1'' (Some ''heart'')))
             (token_of ''a1'') ''x1'' (Some ''heart''))) ''x1'' ''a1'' = [] \<and>
   count_of ''heart''
     (counts_of
        (snd (react (snd (react confession_db (token_of ''a1'') ''x1'' (Some ''heart'')))
                (token_of ''a1'') ''x1'' (Some ''heart''))) ''x1'')
     = count_of ''heart'' (counts_of confession_db ''x1'')"
proof -
  note t = reaction_toggle[OF confession_db_facts(1,2) confession_db_x1(3)
      confession_db_facts(4) confession_db_x1(1), unfolded Let_def]
  have n: "reactions_of confession_db ''x1'' ''a1'' \<noteq> [\<lparr>r_userId = ''a1'', r_type = ''heart''\<rparr>]"
    by (simp add: confession_db_x1)
  from t n show ?thesis
    using confession_db_facts(1,4) confession_db_x1(1) by blast
qed

section \<open>Auth: tokens are consumed\<close>

lemma holders_after_save:
  assumes "length (filter P xs) \<le> 1" and "u \<in> set xs" and "P u" and "\<not> P u'"
  shows "filter P (map (\<lambda>v. if k v = k u then u' else v) xs) = []"
proof -
  from assms(2,3) have "u \<in> set (filter P xs)" by simp
  with assms(1) have "filter P xs = [u]"
    by (cases "filter P xs") auto
  have "\<forall>v \<in> set xs. P v \<longrightarrow> v = u"
  proof (intro ballI impI)
    fix v assume "v \<in> set xs" and "P v"
    then have "v \<in> set (filter P xs)" by simp
    with \<open>filter P xs = [u]\<close> show "v = u" by simp
  qed
  with assms(4) show ?thesis
    by (auto simp: filter_empty_conv)
qed

lemma reset_password_ok:
  assumes "status (fst (reset_password bcrypt s t pw now)) = 200"
  shows "\<exists>user p. pw = Some p \<and> find (reset_pending t now) (users s) = Some user \<and>
           snd (reset_password bcrypt s t pw now) =
             save_user s (user\<lparr>u_password := (if p = u_password user then p else bcrypt p),
                                u_resetPasswordToken := None, u_resetPasswordExpires := None\<rparr>)"
  using assms unfolding reset_password_def
  by (auto split: option.splits if_splits)

lemma reset_password_no_holder:
  assumes "reset_holders s t = []"
  shows "snd (reset_password bcrypt s t pw now) = s"
    and "status (fst (reset_password bcrypt s t pw now)) = 400"
    and "pw = Some p \<Longrightarrow> 6 \<le> length p \<Longrightarrow>
         fst (reset_password bcrypt s t pw now) =
           Json 400 False (Some ''Invalid or expired reset token'') NoData"
proof -
  from assms have "find (reset_pending t now) (users s) = None"
    by (auto simp: find_None_iff reset_holders_def reset_pending_def filter_empty_conv)
  then show "snd (reset_password bcrypt s t pw now) = s"
    and "status (fst (reset_password bcrypt s t pw now)) = 400"
    and "pw = Some p \<Longrightarrow> 6 \<le> length p \<Longrightarrow>
         fst (reset_password bcrypt s t pw now) =
           Json 400 False (Some ''Invalid or expired reset token'') NoData"
    unfolding reset_password_def by (auto split: option.splits)
qed

lemma verify_email_ok:
  assumes "status (fst (verify_email s t now)) = 200"
  shows "\<exists>user. find (verification_pending t now) (users s) = Some user \<and>
           snd (verify_email s t now) =
             save_user s (user\<lparr>u_isVerified := True, u_verificationToken := None,
                                u_verificationTokenExpires := None\<rparr>)"
  using assms unfolding verify_email_def
  by (auto split: option.splits)

lemma verify_email_no_holder:
  assumes "verification_holders s t = []"
  shows "verify_email s t now = (Html 400 ''Invalid or Expired Link'', s)"
proof -
  from assms have "find (verification_pending t now) (users s) = None"
    by (auto simp: find_None_iff verification_holders_def verification_pending_def
          filter_empty_conv)
  then show ?thesis by (simp add: verify_email_def)
qed

lemma find_replace_user:
  "u_id u = j \<Longrightarrow>
   find (\<lambda>u. u_id u = i) (map (\<lambda>v. if u_id v = j then u else v) xs) =
     (if i = j then (if \<exists>v \<in> set xs. u_id v = i then Some u else None)
      else find (\<lambda>u. u_id u = i) xs)"
  by (induction xs) auto

lemma findById_user_saved:
  assumes "u \<in> set (users s)" and "u_id u' = u_id u"
  shows "findById_user (save_user s u') (u_id u) = Some u'"
  using assms unfolding findById_user_def save_user_def
  by (auto simp: find_replace_user)

text \<open>
  C7. A reset (or verification) token t that at most one account holds is consumed by a
  successful call: on the record of the account that held it, the token and its expiry
  are cleared, no account holds t afterwards, and a second call with t, at any time and
  with any password, is refused with status 400 (for an acceptable password: as an invalid
  or expired token) and leaves the store as it is. Tokens are 32 random bytes; that two
  accounts never share one is the assumption made here.
\<close>

theorem token_single_use:
  "(length (reset_holders s t) \<le> 1 \<and>
    status (fst (reset_password bcrypt s t pw now)) = 200 \<longrightarrow>
      (let s' = snd (reset_password bcrypt s t pw now) in
       (\<exists>user. find (reset_pending t now) (users s) = Some user \<and>
          map_option u_resetPasswordToken (findById_user s' (u_id user)) = Some None \<and>
          map_option u_resetPasswordExpires (findById_user s' (u_id user)) = Some None) \<and>
       reset_holders s' t = [] \<and>
       snd (reset_password bcrypt2 s' t pw2 now2) = s' \<and>
       status (fst (reset_password bcrypt2 s' t pw2 now2)) = 400 \<and>
       (\<forall>p. pw2 = Some p \<and> 6 \<le> length p \<longrightarrow>
          fst (reset_password bcrypt2 s' t pw2 now2) =
            Json 400 False (Some ''Invalid or expired reset token'') NoData))) \<and>
   (length (verification_holders s t) \<le> 1 \<and>
    status (fst (verify_email s t now)) = 200 \<longrightarrow>
      (let s' = snd (verify_email s t now) in
       (\<exists>user. find (verification_pending t now) (users s) = Some user \<and>
          map_option u_verificationToken (findById_user s' (u_id user)) = Some None \<and>
          map_option u_verificationTokenExpires (findById_user s' (u_id user)) = Some None) \<and>
       verification_holders s' t = [] \<and>
       verify_email s' t now2 = (Html 400 ''Invalid or Expired Link'', s')))"
proof (intro conjI impI)
  assume h: "length (reset_holders s t) \<le> 1 \<and>
    status (fst (reset_password bcrypt s t pw now)) = 200"
  from reset_password_ok[of bcrypt s t pw now] h obtain user p where
    f: "find (reset_pending t now) (users s) = Some user" and
    e: "snd (reset_password bcrypt s t pw now) =
             save_user s (user\<lparr>u_password := (if p = u_password user then p else bcrypt p),
                                u_resetPasswordToken := None, u_resetPasswordExpires := None\<rparr>)"
    by blast
  let ?u' = "user\<lparr>u_password := (if p = u_password user then p else bcrypt p),
                  u_resetPasswordToken := None, u_resetPasswordExpires := None\<rparr>"
  from find_Some_mem[OF f] have m: "user \<in> set (users s)"
    and tk: "u_resetPasswordToken user = Some t" by (simp_all add: reset_pending_def)
  have "filter (\<lambda>u. u_resetPasswordToken u = Some t)
          (map (\<lambda>v. if u_id v = u_id user then ?u' else v) (users s)) = []"
    using h m tk by (intro holders_after_save) (simp_all add: reset_holders_def)
  then have nh: "reset_holders (save_user s ?u') t = []"
    by (simp add: reset_holders_def save_user_def)
  have fs: "findById_user (save_user s ?u') (u_id user) = Some ?u'"
    by (rule findById_user_saved[OF m]) simp
  show "let s' = snd (reset_password bcrypt s t pw now) in
       (\<exists>user. find (reset_pending t now) (users s) = Some user \<and>
          map_option u_resetPasswordToken (findById_user s' (u_id user)) = Some None \<and>
          map_option u_resetPasswordExpires (findById_user s' (u_id user)) = Some None) \<and>
       reset_holders s' t = [] \<and>
       snd (reset_password bcrypt2 s' t pw2 now2) = s' \<and>
       status (fst (reset_password bcrypt2 s' t pw2 now2)) = 400 \<and>
       (\<forall>p. pw2 = Some p \<and> 6 \<le> length p \<longrightarrow>
          fst (reset_password bcrypt2 s' t pw2 now2) =
            Json 400 False (Some ''Invalid or expired reset token'') NoData)"
    unfolding Let_def e
    using f fs nh reset_password_no_holder[OF nh, where bcrypt=bcrypt2 and pw=pw2 and now=now2]
    by auto
next
  assume h: "length (verification_holders s t) \<le> 1 \<and>
    status (fst (verify_email s t now)) = 200"
  from verify_email_ok[of s t now] h obtain user where
    f: "find (verification_pending t now) (users s) = Some user" and
    e: "snd (verify_email s t now) =
             save_user s (user\<lparr>u_isVerified := True, u_verificationToken := None,
                                u_verificationTokenExpires := None\<rparr>)"
    by blast
  let ?u' = "user\<lparr>u_isVerified := True, u_verificationToken := None,
                  u_verificationTokenExpires := None\<rparr>"
  from find_Some_mem[OF f] have m: "user \<in> set (users s)"
    and tk: "u_verificationToken user = Some t" by (simp_all add: verification_pending_def)
  have "filter (\<lambda>u. u_verificationToken u = Some t)
          (map (\<lambda>v. if u_id v = u_id user then ?u' else v) (users s)) = []"
    using h m tk by (intro holders_after_save) (simp_all add: verification_holders_def)
  then have nh: "verification_holders (save_user s ?u') t = []"
    by (simp add: verification_holders_def save_user_def)
  have fs: "findById_user (save_user s ?u') (u_id user) = Some ?u'"
    by (rule findById_user_saved[OF m]) simp
  show "let s' = snd (verify_email s t now) in
       (\<exists>user. find (verification_pending t now) (users s) = Some user \<and>
          map_option u_verificationToken (findById_user s' (u_id user)) = Some None \<and>
          map_option u_verificationTokenExpires (findById_user s' (u_id user)) = Some None) \<and>
       verification_holders s' t = [] \<and>
       verify_email s' t now2 = (Html 400 ''Invalid or Expired Link'', s')"
    unfolding Let_def e
    using f fs nh verify_email_no_holder[OF nh, of now2]
    by auto
qed


lemma pending_db_users:
  "users pending_db =
       [alice\<lparr>u_resetPasswordToken := Some ''r1'',
              u_resetPasswordExpires := Some (1000 + 60 * 60 * 1000)\<rparr>,
        bob\<lparr>u_isVerified := False, u_verificationToken := Some ''v1'',
            u_verificationTokenExpires := Some 90000000\<rparr>,
        carol]"
  by (simp add: pending_db_def)

lemma pending_db_holders:
  "length (reset_holders pending_db ''r1'') \<le> 1"
  "length (verification_holders pending_db ''v1'') \<le> 1"
  by (simp_all add: reset_holders_def verification_holders_def pending_db_users alice_def
        bob_def carol_def mk_user_def)

lemma pending_db_consume:
  "status (fst (reset_password (\<lambda>p. ''$2a$10$'' @ p) pending_db ''r1'' (Some ''secret1'') 2000)) = 200"
  "status (fst (verify_email pending_db ''v1'' 2000)) = 200"
  by (simp_all add: reset_password_def verify_email_def reset_pending_def
        verification_pending_def pending_db_users alice_def bob_def carol_def mk_user_def)

theorem token_single_use_witness:
  "length (reset_holders pending_db ''r1'') \<le> 1 \<and>
   status (fst (reset_password (\<lambda>p. ''$2a$10$'' @ p) pending_db ''r1'' (Some ''secret1'') 2000)) = 200 \<and>
   fst (reset_password (\<lambda>p. ''$2a$10$'' @ p)
          (snd (reset_password (\<lambda>p. ''$2a$10$'' @ p) pending_db ''r1'' (Some ''secret1'') 2000))
          ''r1'' (Some ''secret2'') 3000)
     = Json 400 False (Some ''Invalid or expired reset token'') NoData \<and>
   snd (reset_password (\<lambda>p. ''$2a$10$'' @ p)
          (snd (reset_password (\<lambda>p. ''$2a$10$'' @ p) pending_db ''r1'' (Some ''secret1'') 2000))
          ''r1'' (Some ''secret2'') 3000)
     = snd (reset_password (\<lambda>p. ''$2a$10$'' @ p) pending_db ''r1'' (Some ''secret1'') 2000) \<and>
   length (verification_holders pending_db ''v1'') \<le> 1 \<and>
   status (fst (verify_email pending_db ''v1'' 2000)) = 200 \<and>
   verify_email (snd (verify_email pending_db ''v1'' 2000)) ''v1'' 3000
     = (Html 400 ''Invalid or Expired Link'', snd (verify_email pending_db ''v1'' 2000))"
proof -
  note t = token_single_use[of pending_db "''r1''" "\<lambda>p. ''$2a$10$'' @ p" "Some ''secret1''" 2000
      "\<lambda>p. ''$2a$10$'' @ p" "Some ''secret2''" 3000, unfolded Let_def]
  note v = token_single_use[of pending_db "''v1''" "\<lambda>p. ''$2a$10$'' @ p" "Some ''secret1''" 2000
      "\<lambda>p. ''$2a$10$'' @ p" "Some ''secret2''" 3000, unfolded Let_def]
  have l: "6 \<le> length ''secret2''" by simp
  from t pending_db_holders(1) pending_db_consume(1) l
  have 1: "fst (reset_password (\<lambda>p. ''$2a$10$'' @ p)
          (snd (reset_password (\<lambda>p. ''$2a$10$'' @ p) pending_db ''r1'' (Some ''secret1'') 2000))
          ''r1'' (Some ''secret2'') 3000)
     = Json 400 False (Some ''Invalid or expired reset token'') NoData \<and>
   snd (reset_password (\<lambda>p. ''$2a$10$'' @ p)
          (snd (reset_password (\<lambda>p. ''$2a$10$'' @ p) pending_db ''r1'' (Some ''secret1'') 2000))
          ''r1'' (Some ''secret2'') 3000)
     = snd (reset_password (\<lambda>p. ''$2a$10$'' @ p) pending_db ''r1'' (Some ''secret1'') 2000)"
    by blast
  from v pending_db_holders(2) pending_db_consume(2)
  have 2: "verify_email (snd (verify_email pending_db ''v1'' 2000)) ''v1'' 3000
     = (Html 400 ''Invalid or Expired Link'', snd (verify_email pending_db ''v1'' 2000))"
    by blast
  from 1 2 pending_db_holders pending_db_consume show ?thesis by blast
qed

section \<open>Auth: forgot-password\<close>

text \<open>
  C10. The answer of the forgot-password endpoint does not depend on the store: for the
  same request body, two runs on any two stores (in particular one with and one without an
  account for the address), with any tokens and clocks, give the same response; for a
  non-empty address it is the success envelope with the fixed message.
\<close>

theorem forgot_password_uniform:
  "fst (forgot_password s1 email token1 now1) = fst (forgot_password s2 email token2 now2) \<and>
   (\<forall>e. email = Some e \<and> e \<noteq> [] \<longrightarrow>
      fst (forgot_password s1 email token1 now1) =
        Json 200 True
          (Some ''If an account exists with this email, you will receive password reset instructions.'')
          NoData)"
  unfolding forgot_password_def
  by (auto split: option.splits)

lemma toLowerCase_demo: "toLowerCase ''Alice@ABC.edu'' = ''alice@abc.edu''"
  by code_simp

lemma forgot_demo:
  "find (\<lambda>u. u_email u = toLowerCase ''Alice@ABC.edu'') (users demo_db) = Some alice"
  by (simp add: toLowerCase_demo demo_db_def alice_def bob_def carol_def mk_user_def)

theorem forgot_password_uniform_witness:
  "find (\<lambda>u. u_email u = toLowerCase ''Alice@ABC.edu'') (users demo_db) = Some alice \<and>
   find (\<lambda>u. u_email u = toLowerCase ''Alice@ABC.edu'') (users (demo_db\<lparr>users := [bob]\<rparr>)) = None \<and>
   fst (forgot_password demo_db (Some ''Alice@ABC.edu'') ''r1'' 1000) =
     fst (forgot_password (demo_db\<lparr>users := [bob]\<rparr>) (Some ''Alice@ABC.edu'') ''r2'' 2000) \<and>
   fst (forgot_password demo_db (Some ''Alice@ABC.edu'') ''r1'' 1000) =
     Json 200 True
       (Some ''If an account exists with this email, you will receive password reset instructions.'')
       NoData"
proof -
  note t = forgot_password_uniform[of demo_db "Some ''Alice@ABC.edu''" "''r1''" 1000
      "demo_db\<lparr>users := [bob]\<rparr>" "''r2''" 2000]
  have n: "''Alice@ABC.edu'' \<noteq> []" by simp
  have "find (\<lambda>u. u_email u = toLowerCase ''Alice@ABC.edu'') (users (demo_db\<lparr>users := [bob]\<rparr>)) = None"
    by (simp add: toLowerCase_demo bob_def mk_user_def)
  with t n forgot_demo show ?thesis by blast
qed

section \<open>Photos: the like toggle\<close>

lemma toggle_photo_issued:
  "toggle_photo None photo =
     photo\<lparr>p_likes := Some (filter (\<lambda>userId. userId \<noteq> None)
                               (case p_likes photo of None \<Rightarrow> [] | Some l \<Rightarrow> l) @ [None]),
           p_likeCount := Some ((case p_likeCount photo of None \<Rightarrow> 0 | Some n \<Rightarrow> n) + 1)\<rparr>"
  by (simp add: toggle_photo_def Let_def list_ex_iff)

lemma toggle_photo_twice:
  assumes "Some u \<notin> set (case p_likes photo of None \<Rightarrow> [] | Some l \<Rightarrow> l)"
    and "0 \<le> (case p_likeCount photo of None \<Rightarrow> 0 | Some n \<Rightarrow> n)"
  shows "toggle_photo (Some u) (toggle_photo (Some u) photo) =
     photo\<lparr>p_likes := Some (filter (\<lambda>userId. userId \<noteq> None)
                               (case p_likes photo of None \<Rightarrow> [] | Some l \<Rightarrow> l)),
           p_likeCount := Some (case p_likeCount photo of None \<Rightarrow> 0 | Some n \<Rightarrow> n)\<rparr>"
proof -
  let ?l0 = "case p_likes photo of None \<Rightarrow> [] | Some l \<Rightarrow> l"
  let ?l1 = "filter (\<lambda>userId. userId \<noteq> None) ?l0"
  let ?n0 = "case p_likeCount photo of None \<Rightarrow> 0 | Some n \<Rightarrow> n"
  from assms(1) have n: "\<not> list_ex (\<lambda>userId. userId \<noteq> None \<and> userId = Some u) ?l1"
    by (auto simp: list_ex_iff)
  then have 1: "toggle_photo (Some u) photo =
      photo\<lparr>p_likes := Some (?l1 @ [Some u]), p_likeCount := Some (?n0 + 1)\<rparr>"
    by (simp add: toggle_photo_def Let_def)
  have "\<forall>x \<in> set ?l1. x \<noteq> None \<and> x \<noteq> Some u"
    using assms(1) by auto
  then have f: "filter (\<lambda>userId. userId \<noteq> None \<and> userId \<noteq> Some u) ?l1 = ?l1"
    by (rule filter_True)
  show ?thesis
    unfolding 1 using assms(2) f
    by (simp add: toggle_photo_def Let_def)
qed

lemma like_photo_found:
  assumes "auth_decode a = Inr p" and "url \<noteq> []"
    and "find_photo_owner s url = Some owner"
    and "find (\<lambda>p. p_url p = url) (u_photos owner) = Some photo"
  shows "like_photo s a (Some url) =
     (like_response (map_of p ''id'') (toggle_photo (map_of p ''id'') photo),
      save_user s (owner\<lparr>u_photos :=
         update_first (\<lambda>p. p_url p = url) (\<lambda>_. toggle_photo (map_of p ''id'') photo)
           (u_photos owner)\<rparr>))"
  using assms unfolding like_photo_def by (simp add: Let_def)

lemma issued_token:
  "auth_decode (token_of ''b2'') = Inr (generateToken ''b2'')"
  "map_of (generateToken ''b2'') ''id'' = None"
  by (simp_all add: auth_decode_def token_of_def generateToken_def)

lemma demo_like_once:
  "like_photo demo_db (token_of ''b2'') (Some ''http://img/1'') =
     (Json 200 True None (LikeData 1 True), demo_db\<lparr>users := [liked_once, bob, carol]\<rparr>)"
proof -
  have o: "find_photo_owner demo_db ''http://img/1'' = Some alice"
    by (simp add: find_photo_owner_def demo_db_def alice_def mk_user_def new_photo_def)
  have f: "find (\<lambda>p. p_url p = ''http://img/1'') (u_photos alice) =
             Some (new_photo ''http://img/1'' ''pic1'' True)"
    by (simp add: alice_def mk_user_def new_photo_def)
  have n: "''http://img/1'' \<noteq> []" by simp
  show ?thesis
    unfolding like_photo_found[OF issued_token(1) n o f] issued_token(2) toggle_photo_issued
    by (simp add: like_response_def save_user_def liked_once_def demo_db_def alice_def bob_def
          carol_def mk_user_def new_photo_def)
qed

lemma demo_like_twice:
  "like_photo (demo_db\<lparr>users := [liked_once, bob, carol]\<rparr>) (token_of ''b2'')
      (Some ''http://img/1'') =
     (Json 200 True None (LikeData 2 True), demo_db\<lparr>users := [liked_twice, bob, carol]\<rparr>)"
proof -
  have o: "find_photo_owner (demo_db\<lparr>users := [liked_once, bob, carol]\<rparr>) ''http://img/1''
             = Some liked_once"
    by (simp add: find_photo_owner_def liked_once_def alice_def mk_user_def new_photo_def)
  have f: "find (\<lambda>p. p_url p = ''http://img/1'') (u_photos liked_once) =
             Some ((new_photo ''http://img/1'' ''pic1'' True)
                     \<lparr>p_likes := Some [None], p_likeCount := Some 1\<rparr>)"
    by (simp add: liked_once_def alice_def mk_user_def new_photo_def)
  have n: "''http://img/1'' \<noteq> []" by simp
  show ?thesis
    unfolding like_photo_found[OF issued_token(1) n o f] issued_token(2) toggle_photo_issued
    by (simp add: like_response_def save_user_def liked_once_def liked_twice_def demo_db_def
          alice_def bob_def carol_def mk_user_def new_photo_def)
qed

text \<open>
  C4 on the code. Bob's token is one that \<^verbatim>\<open>generateToken\<close> issues, so it has no \<^verbatim>\<open>id\<close>
  field and \<^verbatim>\<open>req.user.id\<close> is undefined. Alice's photo starts with no likes and counter 0.
  The first request answers count 1 and liked; the second answers count 2 and liked, and
  the stored counter is 2 while Bob's id is not in the liker list: the photo is not back in
  its original state. With a user id in hand the toggle itself undoes a like
  (\<open>toggle_photo_twice\<close>).
\<close>

theorem like_toggle_issued_token:
  "map_of (generateToken ''b2'') ''id'' = None \<and>
   map_option p_likeCount (photo_at demo_db ''http://img/1'') = Some (Some 0) \<and>
   fst (like_photo demo_db (token_of ''b2'') (Some ''http://img/1''))
     = Json 200 True None (LikeData 1 True) \<and>
   fst (like_photo (snd (like_photo demo_db (token_of ''b2'') (Some ''http://img/1'')))
          (token_of ''b2'') (Some ''http://img/1''))
     = Json 200 True None (LikeData 2 True) \<and>
   map_option p_likeCount
     (photo_at (snd (like_photo (snd (like_photo demo_db (token_of ''b2'') (Some ''http://img/1'')))
                       (token_of ''b2'') (Some ''http://img/1''))) ''http://img/1'')
     = Some (Some 2) \<and>
   map_option (isLikedBy ''b2'')
     (photo_at (snd (like_photo (snd (like_photo demo_db (token_of ''b2'') (Some ''http://img/1'')))
                       (token_of ''b2'') (Some ''http://img/1''))) ''http://img/1'')
     = Some False"
  unfolding demo_like_once snd_conv fst_conv demo_like_twice
  by (simp add: issued_token photo_at_def find_photo_owner_def liked_twice_def demo_db_def
        alice_def mk_user_def new_photo_def isLikedBy_def)

end
